theory Spec2Isabelle
  imports Main "HOL-Library.AList" "HOL-Library.Word"
begin

unbundle bit_operations_syntax

section \<open>Close status codes (src/lib/server/index.ts, enum WebSocketError)\<close>

text \<open>
  The enum \<open>WebSocketError\<close> of the server module, with the numeric value of each member,
  and the literal \<open>1011\<close> that the \<open>catch\<close> block of \<open>add\<close> passes to \<open>ws.close\<close>.
\<close>

datatype WebSocketError =
    TOO_MANY_CONNECTIONS
  | INVALID_KEY
  | MISSING_PARAM
  | AUTH_FAILED
  | TIMEOUT
  | RATE_LIMITED

fun WebSocketError_value :: "WebSocketError \<Rightarrow> nat" where
  "WebSocketError_value TOO_MANY_CONNECTIONS = 1013"
| "WebSocketError_value INVALID_KEY = 1008"
| "WebSocketError_value MISSING_PARAM = 1008"
| "WebSocketError_value AUTH_FAILED = 1008"
| "WebSocketError_value TIMEOUT = 1001"
| "WebSocketError_value RATE_LIMITED = 1013"

definition INTERNAL_ERROR_value :: nat where
  "INTERNAL_ERROR_value = 1011"

text \<open>
  The seven causes for which the controller closes a connection, and the call
  \<open>ws.close(code, reason)\<close> made for each: the six enum members at their use sites in
  \<open>add\<close> and \<open>setupSocketTimeout\<close>, and the internal error of the \<open>catch\<close> block. The
  missing-parameter reason is a template over the name of the parameter.
\<close>

datatype rejection_cause =
    TooManyConnections
  | InvalidKey
  | MissingParam
  | AuthFailed
  | Timeout
  | RateLimited
  | InternalError

fun close_code :: "rejection_cause \<Rightarrow> nat" where
  "close_code TooManyConnections = WebSocketError_value TOO_MANY_CONNECTIONS"
| "close_code InvalidKey = WebSocketError_value INVALID_KEY"
| "close_code MissingParam = WebSocketError_value MISSING_PARAM"
| "close_code AuthFailed = WebSocketError_value AUTH_FAILED"
| "close_code Timeout = WebSocketError_value TIMEOUT"
| "close_code RateLimited = WebSocketError_value RATE_LIMITED"
| "close_code InternalError = INTERNAL_ERROR_value"

fun close_reason :: "rejection_cause \<Rightarrow> string \<Rightarrow> string" where
  "close_reason TooManyConnections p = ''Too many connections''"
| "close_reason InvalidKey p = ''Invalid or expired connection key''"
| "close_reason MissingParam p = ''Missing required parameter: '' @ p"
| "close_reason AuthFailed p = ''Authentication failed''"
| "close_reason Timeout p = ''Connection timeout due to inactivity''"
| "close_reason RateLimited p = ''Rate limit exceeded''"
| "close_reason InternalError p = ''Internal server error''"

section \<open>Data model (src/lib/server/index.ts)\<close>

text \<open>
  Numbers are integers (\<open>Date.now()\<close> readings and durations in milliseconds, counts and
  limits). One clock reading is taken for each synchronous run of a method. A socket object
  is identified by its \<open>ref\<close> (a random UUID): the objects live in a store indexed by
  \<open>ref\<close>, and the controller's \<open>Map\<close> of sockets is the list of its keys in insertion
  order. The other two maps are an association list in insertion order (\<open>pendingKeys\<close>,
  which the code iterates) and a partial function (\<open>rateLimitMap\<close>, which it only looks
  up).
\<close>

datatype ready_state = CONNECTING | OPEN | CLOSING | CLOSED

fun ready_state_value :: "ready_state \<Rightarrow> string" where
  "ready_state_value CONNECTING = ''0''"
| "ready_state_value OPEN = ''1''"
| "ready_state_value CLOSING = ''2''"
| "ready_state_value CLOSED = ''3''"

text \<open>The listeners that the controller attaches to a socket, in the order of registration.\<close>

datatype listener =
    RemovalOnClose          \<comment> \<open>\<open>ws.once('close', ...)\<close> of \<open>add\<close>\<close>
  | ErrorForward            \<comment> \<open>\<open>ws.on('error', ...)\<close> of \<open>add\<close>\<close>
  | ActivityOnMessage       \<comment> \<open>\<open>ws.on('message', activityHandler)\<close>\<close>
  | ActivityOnPing          \<comment> \<open>\<open>ws.on('ping', activityHandler)\<close>\<close>
  | ActivityOnPong          \<comment> \<open>\<open>ws.on('pong', activityHandler)\<close>\<close>
  | ShutdownOnClose nat     \<comment> \<open>\<open>socket.once('close', closeHandler)\<close> of the n-th \<open>gracefulShutdown\<close>\<close>

record ReferencedWebSocket =
  params :: "(string \<rightharpoonup> string) option"
  timeoutTimer :: "nat option"
  lastActivity :: "int option"
  readyState :: ready_state
  listeners :: "listener list"

record PendingKey =
  key :: string
  createdAt :: int
  expiresAt :: int

record RateLimitEntry =
  count :: int
  resetTime :: int

record RateLimitConfig =
  max_rl :: int
  window :: int

record IncomingMessage =
  remoteAddress :: "string option"
  userAgent :: "string option"
  searchParams :: "(string \<times> string) list option"
    \<comment> \<open>\<open>parseUrl(req).searchParams\<close>; \<open>None\<close> when the \<open>URL\<close> constructor throws\<close>

datatype 'a outcome = Returns 'a | Throws string

datatype disposer_fn = DeleteRoute string
  \<comment> \<open>the closure \<open>() => allowed_routes.delete(path)\<close>\<close>

record WebSocketEndpointConfig =
  authHandler :: "(IncomingMessage \<Rightarrow> bool outcome) option"
  limit :: "int option"
  useConnectionKeys :: "bool option"
  pendingKeyExpiration :: "int option"
  requiredParams :: "string list option"
  timeout :: "int option"
  rateLimit :: "RateLimitConfig option"
  disposer :: "disposer_fn option"

datatype event =
    Connect string
  | Disconnect string nat string
  | Destroy
  | Error string "string option"
  | RateLimit IncomingMessage

text \<open>Pending timers of the runtime: what runs when one fires.\<close>

datatype task =
    IdleTimeout string      \<comment> \<open>the callback of \<open>setupSocketTimeout\<close> for this socket\<close>
  | ForceTimeout nat        \<comment> \<open>\<open>forceTimeout\<close> of the n-th \<open>gracefulShutdown\<close>\<close>

text \<open>A transport send whose callback has not run yet: what its callback continues.\<close>

datatype continuation =
    BroadcastCallback nat   \<comment> \<open>the per-socket callback of the n-th \<open>broadcast\<close>\<close>
  | SendCallback bool       \<comment> \<open>the caller's \<open>cb\<close> of \<open>send\<close>, if one was given\<close>

text \<open>Calls that leave the controller, in the order in which they are made.\<close>

datatype effect =
    WsClose string nat string         \<comment> \<open>\<open>ws.close(code, reason)\<close>\<close>
  | WsTerminate string                \<comment> \<open>\<open>ws.terminate()\<close>\<close>
  | WsSend string string              \<comment> \<open>\<open>socket.send(data, ...)\<close> that returned\<close>
  | Emit event                        \<comment> \<open>\<open>this.emit(...)\<close>\<close>
  | AuthHandlerCall IncomingMessage   \<comment> \<open>\<open>this.authHandler(req)\<close>\<close>
  | BroadcastDone nat "string list"   \<comment> \<open>\<open>cb(errors)\<close> of the n-th \<open>broadcast\<close>\<close>
  | SendDone "string option"          \<comment> \<open>\<open>cb(err)\<close> of \<open>send\<close>\<close>
  | Resolve nat                       \<comment> \<open>\<open>resolve()\<close> of the n-th \<open>gracefulShutdown\<close>\<close>
  | DisposerCall disposer_fn          \<comment> \<open>\<open>this.config.disposer()\<close>\<close>
  | RemoveAllListeners                \<comment> \<open>\<open>this.removeAllListeners()\<close>\<close>
  | Uncaught string
      \<comment> \<open>an error that leaves the controller's code: thrown out of a listener, or the
          rejection of the promise that \<open>add\<close> returns\<close>

text \<open>The closure state of one call of \<open>gracefulShutdown\<close> and of one call of \<open>broadcast\<close>.\<close>

record shutdown =
  snapshot :: "string list"     \<comment> \<open>\<open>const sockets = Array.from(this.sockets.values())\<close>\<close>
  closedCount :: nat
  resolved :: bool

record broadcast_state =
  errors :: "string list"
  completed :: nat
  total :: nat
  cb :: bool                    \<comment> \<open>whether a completion callback was given\<close>

text \<open>An admission suspended at \<open>await this.authHandler(req)\<close>.\<close>

record admission =
  adm_ws :: string
  adm_params :: "(string \<times> string) list"
  adm_auth :: "bool outcome"

record WebSocketEndpointController =
  path :: string
  config :: WebSocketEndpointConfig
  sockets :: "string list"
  pendingKeys :: "(string \<times> PendingKey) list"
  rateLimitMap :: "string \<rightharpoonup> RateLimitEntry"

text \<open>The controller together with the runtime it acts on.\<close>

record world = WebSocketEndpointController +
  heap :: "string \<Rightarrow> ReferencedWebSocket"
  timers :: "(nat \<times> int \<times> task) list"     \<comment> \<open>handle, due time, task\<close>
  nextTimer :: nat
  shutdowns :: "shutdown list"
  broadcasts :: "broadcast_state list"
  pendingSends :: "(string \<times> continuation) list"
  admissions :: "admission list"
  errorListeners :: nat
    \<comment> \<open>the listeners of \<open>'error'\<close> that the application has registered on the controller\<close>
  trace :: "effect list"

section \<open>Rate limiter\<close>

definition or_unknown :: "string option \<Rightarrow> string" where
  "or_unknown v = (case v of None \<Rightarrow> ''unknown'' | Some s \<Rightarrow> if s = [] then ''unknown'' else s)"

definition getClientId :: "IncomingMessage \<Rightarrow> string" where
  "getClientId req = or_unknown (remoteAddress req) @ '':'' @ or_unknown (userAgent req)"

definition emit :: "event \<Rightarrow> world \<Rightarrow> world" where
  "emit e w = w\<lparr>trace := trace w @ [Emit e]\<rparr>"

text \<open>
  \<open>this.emit('error', error, ws)\<close>. The controller is an \<open>EventEmitter\<close>: with no listener
  registered for \<open>'error'\<close> the call throws the error instead of returning. The result is
  the error thrown, if any. (Listeners that the application registers are taken to return.)
\<close>

definition emit_error :: "string \<Rightarrow> string option \<Rightarrow> world \<Rightarrow> string option \<times> world" where
  "emit_error err ws w =
     (if errorListeners w = 0 then (Some err, w) else (None, emit (Error err ws) w))"

definition checkRateLimit :: "IncomingMessage \<Rightarrow> int \<Rightarrow> world \<Rightarrow> bool \<times> world" where
  "checkRateLimit req now w =
     (case rateLimit (config w) of
        None \<Rightarrow> (True, w)
      | Some rl \<Rightarrow>
          let clientId = getClientId req;
              fresh = (True, w\<lparr>rateLimitMap := (rateLimitMap w)
                         (clientId \<mapsto> \<lparr>count = 1, resetTime = now + window rl\<rparr>)\<rparr>)
          in (case rateLimitMap w clientId of
                None \<Rightarrow> fresh
              | Some lim \<Rightarrow>
                  if now > resetTime lim then fresh
                  else if count lim \<ge> max_rl rl then (False, emit (RateLimit req) w)
                  else (True, w\<lparr>rateLimitMap := (rateLimitMap w)
                                 (clientId \<mapsto> lim\<lparr>count := count lim + 1\<rparr>)\<rparr>)))"

text \<open>A run of admission requests \<open>(request, clock reading)\<close> through the rate limiter.\<close>

fun checkRateLimit_run :: "(IncomingMessage \<times> int) list \<Rightarrow> world \<Rightarrow> world" where
  "checkRateLimit_run [] w = w"
| "checkRateLimit_run ((req, now) # rs) w = checkRateLimit_run rs (snd (checkRateLimit req now w))"

section \<open>Pending connection keys\<close>

definition base64url_alphabet :: string where
  "base64url_alphabet = ''ABCDEFGHIJKLMNOPQRSTUVWXYZabcdefghijklmnopqrstuvwxyz0123456789-_''"

definition b64 :: "8 word \<Rightarrow> char" where
  "b64 v = base64url_alphabet ! unat (v AND 63)"

fun base64url :: "8 word list \<Rightarrow> string" where
  "base64url [] = []"
| "base64url [a] = [b64 (drop_bit 2 a), b64 (push_bit 4 (a AND 3))]"
| "base64url [a, b] =
     [b64 (drop_bit 2 a), b64 (push_bit 4 (a AND 3) OR drop_bit 4 b), b64 (push_bit 2 (b AND 15))]"
| "base64url (a # b # c # bs) =
     [b64 (drop_bit 2 a), b64 (push_bit 4 (a AND 3) OR drop_bit 4 b),
      b64 (push_bit 2 (b AND 15) OR drop_bit 6 c), b64 c] @ base64url bs"

definition hex_digit :: "8 word \<Rightarrow> char" where
  "hex_digit v = ''0123456789abcdef'' ! unat (v AND 15)"

definition hex :: "8 word list \<Rightarrow> string" where
  "hex bs = concat (map (\<lambda>b. [hex_digit (drop_bit 4 b), hex_digit b]) bs)"

function digits :: "nat \<Rightarrow> string" where
  "digits n = (if n < 10 then [''0123456789'' ! n]
               else digits (n div 10) @ [''0123456789'' ! (n mod 10)])"
  by pat_completeness auto
termination
  by (relation "measure id") auto

definition number_toString :: "int \<Rightarrow> string" where
  "number_toString n = (if n < 0 then ''-'' @ digits (nat (- n)) else digits (nat n))"

text \<open>\<open>randomBytes(32).toString('base64url')\<close>, given the 32 random bytes.\<close>

definition generateConnectionKey :: "8 word list \<Rightarrow> string" where
  "generateConnectionKey keyBytes = base64url keyBytes"

text \<open>
  \<open>generatePendingConnectionKey\<close>, given the random bytes of the key, those of the entry
  identifier and the clock reading.
\<close>

definition generatePendingConnectionKey ::
  "8 word list \<Rightarrow> 8 word list \<Rightarrow> int \<Rightarrow> 'a WebSocketEndpointController_scheme
     \<Rightarrow> string \<times> 'a WebSocketEndpointController_scheme" where
  "generatePendingConnectionKey keyBytes idBytes now w =
     (let k = generateConnectionKey keyBytes;
          ident = ''pending_'' @ number_toString now @ ''_'' @ hex idBytes;
          expiry = now + (case pendingKeyExpiration (config w) of
                            None \<Rightarrow> 2 * 60 * 1000
                          | Some e \<Rightarrow> if e = 0 then 2 * 60 * 1000 else e)
      in (k, w\<lparr>pendingKeys := AList.update ident
                  \<lparr>key = k, createdAt = now, expiresAt = expiry\<rparr> (pendingKeys w)\<rparr>))"

text \<open>The loop of \<open>validateConnectionKey\<close>: the identifier of the first matching entry.\<close>

fun validate_scan :: "string \<Rightarrow> int \<Rightarrow> (string \<times> PendingKey) list \<Rightarrow> string option" where
  "validate_scan providedKey now [] = None"
| "validate_scan providedKey now ((ident, pk) # rest) =
     (if key pk = providedKey \<and> now \<le> expiresAt pk then Some ident
      else validate_scan providedKey now rest)"

definition validateConnectionKey ::
  "string \<Rightarrow> int \<Rightarrow> 'a WebSocketEndpointController_scheme
     \<Rightarrow> bool \<times> 'a WebSocketEndpointController_scheme" where
  "validateConnectionKey providedKey now w =
     (if providedKey = [] then (False, w)
      else (case validate_scan providedKey now (pendingKeys w) of
              Some ident \<Rightarrow> (True, w\<lparr>pendingKeys := AList.delete ident (pendingKeys w)\<rparr>)
            | None \<Rightarrow> (False, w)))"

definition cleanupExpiredKeys ::
  "int \<Rightarrow> 'a WebSocketEndpointController_scheme \<Rightarrow> 'a WebSocketEndpointController_scheme" where
  "cleanupExpiredKeys now w =
     w\<lparr>pendingKeys := filter (\<lambda>(ident, pk). \<not> now > expiresAt pk) (pendingKeys w)\<rparr>"

definition requests_of :: "string \<Rightarrow> (IncomingMessage \<times> int) list \<Rightarrow> nat" where
  "requests_of c rs = length (filter (\<lambda>(r, t). getClientId r = c) rs)"

section \<open>Construction\<close>

text \<open>
  A socket object as the class initialisers leave it (\<open>params\<close>, \<open>timeoutTimer\<close> and
  \<open>lastActivity\<close> undefined), open as the server hands it over, with no listener of the
  controller.
\<close>

definition new_socket :: ReferencedWebSocket where
  "new_socket = \<lparr>params = None, timeoutTimer = None, lastActivity = None,
                  readyState = OPEN, listeners = []\<rparr>"

definition new_WebSocketEndpointController ::
  "string \<Rightarrow> WebSocketEndpointConfig \<Rightarrow> WebSocketEndpointController" where
  "new_WebSocketEndpointController p c =
     \<lparr>path = p,
      config = (case useConnectionKeys c of None \<Rightarrow> c\<lparr>useConnectionKeys := Some True\<rparr> | Some u \<Rightarrow> c),
      sockets = [], pendingKeys = [], rateLimitMap = Map.empty\<rparr>"

definition new_world :: "string \<Rightarrow> WebSocketEndpointConfig \<Rightarrow> world" where
  "new_world p c =
     \<lparr>path = p,
      config = config (new_WebSocketEndpointController p c),
      sockets = [], pendingKeys = [], rateLimitMap = Map.empty,
      heap = (\<lambda>r. new_socket), timers = [], nextTimer = 0, shutdowns = [], broadcasts = [],
      pendingSends = [], admissions = [], errorListeners = 0, trace = []\<rparr>"

section \<open>Timers and the idle-timeout watchdog\<close>

definition setTimeout :: "task \<Rightarrow> int \<Rightarrow> world \<Rightarrow> nat \<times> world" where
  "setTimeout tk due w =
     (nextTimer w, w\<lparr>timers := timers w @ [(nextTimer w, due, tk)], nextTimer := Suc (nextTimer w)\<rparr>)"

definition clearTimeout :: "nat \<Rightarrow> world \<Rightarrow> world" where
  "clearTimeout h w = w\<lparr>timers := filter (\<lambda>(h', d, tk). h' \<noteq> h) (timers w)\<rparr>"

text \<open>
  The methods \<open>close\<close> and \<open>terminate\<close> that \<open>ReferencedWebSocket\<close> inherits from the
  \<open>WebSocket\<close> class of the \<open>ws\<close> package. \<open>close(code, reason)\<close> returns at once on a socket
  that is closing or closed; otherwise it moves the socket to \<open>CLOSING\<close> and then builds the
  close frame, which throws for a status code that is not valid and for a reason of more
  than 123 bytes. \<open>terminate()\<close> moves a socket that is not closed to \<open>CLOSING\<close> and destroys
  the connection. The socket is \<open>CLOSED\<close>, and emits \<open>close\<close>, only when the transport says so.
  A reason is a string of bytes here.
\<close>

definition isValidStatusCode :: "nat \<Rightarrow> bool" where
  "isValidStatusCode code \<longleftrightarrow>
     (code \<ge> 1000 \<and> code \<le> 1014 \<and> code \<noteq> 1004 \<and> code \<noteq> 1005 \<and> code \<noteq> 1006) \<or>
     (code \<ge> 3000 \<and> code \<le> 4999)"

definition close_error :: "nat \<Rightarrow> string \<Rightarrow> string option" where
  "close_error code reason =
     (if \<not> isValidStatusCode code then Some ''First argument must be a valid error code number''
      else if length reason > 123 then Some ''The message must not be greater than 123 bytes''
      else None)"

definition set_readyState :: "string \<Rightarrow> ready_state \<Rightarrow> world \<Rightarrow> world" where
  "set_readyState ws st w = w\<lparr>heap := (heap w)(ws := (heap w ws)\<lparr>readyState := st\<rparr>)\<rparr>"

text \<open>What a call \<open>ws.close(code, reason)\<close> throws, if anything, and the state it leaves.\<close>

definition close_throws :: "string \<Rightarrow> nat \<Rightarrow> string \<Rightarrow> world \<Rightarrow> string option" where
  "close_throws ws code reason w =
     (if readyState (heap w ws) = OPEN then close_error code reason else None)"

definition ws_close :: "string \<Rightarrow> nat \<Rightarrow> string \<Rightarrow> world \<Rightarrow> world" where
  "ws_close ws code reason w =
     (let w1 = w\<lparr>trace := trace w @ [WsClose ws code reason]\<rparr>
      in if readyState (heap w ws) = OPEN \<or> readyState (heap w ws) = CONNECTING
         then set_readyState ws CLOSING w1 else w1)"

definition ws_terminate :: "string \<Rightarrow> world \<Rightarrow> world" where
  "ws_terminate ws w =
     (let w1 = w\<lparr>trace := trace w @ [WsTerminate ws]\<rparr>
      in if readyState (heap w ws) = CLOSED then w1 else set_readyState ws CLOSING w1)"

definition clear_timeoutTimer :: "string \<Rightarrow> world \<Rightarrow> world" where
  \<comment> \<open>\<open>if (ws.timeoutTimer) clearTimeout(ws.timeoutTimer)\<close>\<close>
  "clear_timeoutTimer ws w =
     (case timeoutTimer (heap w ws) of Some h \<Rightarrow> clearTimeout h w | None \<Rightarrow> w)"

definition setupSocketTimeout :: "string \<Rightarrow> int \<Rightarrow> world \<Rightarrow> world" where
  "setupSocketTimeout ws now w =
     (case timeout (config w) of
        None \<Rightarrow> w
      | Some T \<Rightarrow>
          if T = 0 then w
          else (case setTimeout (IdleTimeout ws) (now + T) (clear_timeoutTimer ws w) of
                  (h, w1) \<Rightarrow> w1\<lparr>heap := (heap w1)
                     (ws := (heap w1 ws)\<lparr>timeoutTimer := Some h, lastActivity := Some now\<rparr>)\<rparr>))"

definition resetSocketTimeout :: "string \<Rightarrow> int \<Rightarrow> world \<Rightarrow> world" where
  "resetSocketTimeout ws now w =
     setupSocketTimeout ws now
       (w\<lparr>heap := (heap w)(ws := (heap w ws)\<lparr>lastActivity := Some now\<rparr>)\<rparr>)"

definition resetTimeout :: "string \<Rightarrow> int \<Rightarrow> world \<Rightarrow> bool \<times> world" where
  "resetTimeout ref now w =
     (if ref \<notin> set (sockets w) then (False, w) else (True, resetSocketTimeout ref now w))"

text \<open>The callback that \<open>setupSocketTimeout\<close> schedules.\<close>

definition idleTimeout :: "string \<Rightarrow> world \<Rightarrow> world" where
  "idleTimeout ws w =
     (if readyState (heap w ws) = OPEN
      then ws_close ws (WebSocketError_value TIMEOUT) ''Connection timeout due to inactivity'' w
      else w)"

section \<open>Admission\<close>

definition at_capacity :: "world \<Rightarrow> bool" where
  \<comment> \<open>\<open>this.config?.limit && this.sockets.size >= this.config.limit\<close>\<close>
  "at_capacity w = (case limit (config w) of
                      None \<Rightarrow> False
                    | Some l \<Rightarrow> l \<noteq> 0 \<and> int (length (sockets w)) \<ge> l)"

definition providedKey :: "(string \<times> string) list \<Rightarrow> string" where
  \<comment> \<open>\<open>params.get('key') || ''\<close>\<close>
  "providedKey ps = (case map_of ps ''key'' of None \<Rightarrow> [] | Some v \<Rightarrow> v)"

text \<open>The loop over \<open>requiredParams\<close>: the parameter at which it returns, if any.\<close>

fun missing_param :: "(string \<times> string) list \<Rightarrow> string list \<Rightarrow> string option" where
  "missing_param ps [] = None"
| "missing_param ps (p # rest) =
     (if p \<notin> set (map fst ps) then Some p else missing_param ps rest)"

definition authHandler_of :: "WebSocketEndpointConfig \<Rightarrow> IncomingMessage \<Rightarrow> bool outcome" where
  "authHandler_of c = (case authHandler c of None \<Rightarrow> (\<lambda>req. Returns True) | Some h \<Rightarrow> h)"

definition add_catch :: "string \<Rightarrow> string \<Rightarrow> world \<Rightarrow> world" where
  "add_catch ws err w =
     (case emit_error err (Some ws) w of
        (Some e, w1) \<Rightarrow> w1\<lparr>trace := trace w1 @ [Uncaught e]\<rparr>
      | (None, w1) \<Rightarrow> ws_close ws INTERNAL_ERROR_value ''Internal server error'' w1)"

definition map_set_key :: "string \<Rightarrow> string list \<Rightarrow> string list" where
  \<comment> \<open>\<open>Map.set\<close> on the keys: an existing key keeps its place, a new one goes last\<close>
  "map_set_key k ks = (if k \<in> set ks then ks else ks @ [k])"

definition add_listener :: "string \<Rightarrow> listener \<Rightarrow> world \<Rightarrow> world" where
  "add_listener ws l w =
     w\<lparr>heap := (heap w)(ws := (heap w ws)\<lparr>listeners := listeners (heap w ws) @ [l]\<rparr>)\<rparr>"

definition timeout_enabled :: "world \<Rightarrow> bool" where
  \<comment> \<open>\<open>this.config.timeout && this.config.timeout > 0\<close>\<close>
  "timeout_enabled w = (case timeout (config w) of None \<Rightarrow> False | Some T \<Rightarrow> T > 0)"

text \<open>The key validation block of \<open>add\<close>: whether it passed, and the state it leaves.\<close>

definition key_check :: "(string \<times> string) list \<Rightarrow> int \<Rightarrow> world \<Rightarrow> bool \<times> world" where
  "key_check ps now w =
     (if useConnectionKeys (config w) = Some True
      then validateConnectionKey (providedKey ps) now w else (True, w))"

text \<open>
  \<open>add\<close> up to \<open>await this.authHandler(req)\<close>: either the admission is over (rejected, or
  an exception was caught), or it is suspended with the outcome of the handler.
\<close>

definition add_start :: "string \<Rightarrow> IncomingMessage \<Rightarrow> int \<Rightarrow> world \<Rightarrow> admission option \<times> world" where
  "add_start ws req now w =
     (case checkRateLimit req now w of
        (False, w1) \<Rightarrow>
          (None, ws_close ws (WebSocketError_value RATE_LIMITED) ''Rate limit exceeded'' w1)
      | (True, w1) \<Rightarrow>
          if at_capacity w1
          then (None, ws_close ws (WebSocketError_value TOO_MANY_CONNECTIONS) ''Too many connections'' w1)
          else (case searchParams req of
                  None \<Rightarrow> (None, add_catch ws ''Invalid URL'' w1)
                | Some ps \<Rightarrow>
                    (case key_check ps now w1 of
                       (False, w2) \<Rightarrow>
                         (None, ws_close ws (WebSocketError_value INVALID_KEY)
                                  ''Invalid or expired connection key'' w2)
                     | (True, w2) \<Rightarrow>
                         (case (case requiredParams (config w2) of
                                  None \<Rightarrow> None | Some rp \<Rightarrow> missing_param ps rp) of
                            Some p \<Rightarrow>
                              (let reason = ''Missing required parameter: '' @ p;
                                   w3 = ws_close ws (WebSocketError_value MISSING_PARAM) reason w2
                               in (None,
                                   case close_throws ws (WebSocketError_value MISSING_PARAM) reason w2 of
                                     None \<Rightarrow> w3
                                   | Some e \<Rightarrow> add_catch ws e w3))
                          | None \<Rightarrow>
                              (Some \<lparr>adm_ws = ws, adm_params = ps,
                                     adm_auth = authHandler_of (config w2) req\<rparr>,
                               w2\<lparr>trace := trace w2 @ [AuthHandlerCall req]\<rparr>)))))"

text \<open>\<open>add\<close> from the point where the awaited handler has settled.\<close>

definition add_resume :: "admission \<Rightarrow> int \<Rightarrow> world \<Rightarrow> world" where
  "add_resume a now w =
     (case adm_auth a of
        Throws err \<Rightarrow> add_catch (adm_ws a) err w
      | Returns False \<Rightarrow>
          ws_close (adm_ws a) (WebSocketError_value AUTH_FAILED) ''Authentication failed'' w
      | Returns True \<Rightarrow>
          (let ws = adm_ws a;
               w1 = w\<lparr>heap := (heap w)(ws := (heap w ws)\<lparr>params := Some (map_of (rev (adm_params a)))\<rparr>),
                      sockets := map_set_key ws (sockets w)\<rparr>;
               w2 = (if timeout_enabled w1 then setupSocketTimeout ws now w1 else w1);
               w3 = add_listener ws ErrorForward (add_listener ws RemovalOnClose w2);
               w4 = (if timeout_enabled w3
                     then add_listener ws ActivityOnPong
                            (add_listener ws ActivityOnPing
                               (add_listener ws ActivityOnMessage w3))
                     else w3)
           in emit (Connect ws) w4))"

text \<open>\<open>add\<close> when nothing else runs while it is suspended.\<close>

definition add :: "string \<Rightarrow> IncomingMessage \<Rightarrow> int \<Rightarrow> world \<Rightarrow> world" where
  "add ws req now w =
     (case add_start ws req now w of
        (None, w1) \<Rightarrow> w1
      | (Some a, w1) \<Rightarrow> add_resume a now w1)"

text \<open>The listener that \<open>add\<close> registers with \<open>ws.once('close', ...)\<close>.\<close>

definition removalOnClose :: "string \<Rightarrow> nat \<Rightarrow> string \<Rightarrow> world \<Rightarrow> world" where
  "removalOnClose ws code reason w =
     (let w1 = w\<lparr>sockets := removeAll ws (sockets w)\<rparr>;
          w2 = (case timeoutTimer (heap w1 ws) of
                  None \<Rightarrow> w1
                | Some h \<Rightarrow> (clearTimeout h w1)
                     \<lparr>heap := (heap w1)(ws := (heap w1 ws)\<lparr>timeoutTimer := None\<rparr>)\<rparr>)
      in emit (Disconnect ws code reason) w2)"

section \<open>Messaging\<close>

text \<open>
  The transport's \<open>socket.send(data, options, callback)\<close> either throws at the call or
  returns and runs the callback later, with or without an error. What it does at the call
  is a parameter \<open>tx\<close> of the model (\<open>Some e\<close>: it throws \<open>e\<close> for this socket); the
  callbacks that are still due are the \<open>pendingSends\<close> of the runtime.
\<close>

definition call_cb :: "bool \<Rightarrow> string option \<Rightarrow> world \<Rightarrow> world" where
  \<comment> \<open>\<open>if (cb) cb(err)\<close>\<close>
  "call_cb has_cb err w = (if has_cb then w\<lparr>trace := trace w @ [SendDone err]\<rparr> else w)"

definition send :: "string \<Rightarrow> string \<Rightarrow> bool \<Rightarrow> (string \<Rightarrow> string option) \<Rightarrow> world \<Rightarrow> bool \<times> world" where
  "send ref data has_cb tx w =
     (if ref \<notin> set (sockets w)
      then (False, call_cb has_cb (Some (''Socket not found: '' @ ref)) w)
      else if readyState (heap w ref) \<noteq> OPEN
      then (False, call_cb has_cb
              (Some (''Socket not ready: '' @ ready_state_value (readyState (heap w ref)))) w)
      else (case tx ref of
              Some e \<Rightarrow> (False, call_cb has_cb (Some e) w)
            | None \<Rightarrow> (True, w\<lparr>trace := trace w @ [WsSend ref data],
                              pendingSends := pendingSends w @ [(ref, SendCallback has_cb)]\<rparr>)))"

text \<open>
  The body of the per-socket callback of \<open>broadcast\<close>; with no error it is also the
  \<open>else\<close> branch of the loop.
\<close>

definition broadcast_complete :: "nat \<Rightarrow> string option \<Rightarrow> world \<Rightarrow> world" where
  "broadcast_complete b err w =
     (if b < length (broadcasts w)
      then (let s = broadcasts w ! b;
                s1 = s\<lparr>errors := (case err of None \<Rightarrow> errors s | Some e \<Rightarrow> errors s @ [e]),
                       completed := Suc (completed s)\<rparr>;
                w1 = w\<lparr>broadcasts := (broadcasts w)[b := s1]\<rparr>
            in if completed s1 = total s1 \<and> cb s1
               then w1\<lparr>trace := trace w1 @ [BroadcastDone b (errors s1)]\<rparr>
               else w1)
      else w)"

text \<open>The loop of \<open>broadcast\<close>; an exception of the transport leaves it.\<close>

fun broadcast_loop ::
  "nat \<Rightarrow> string \<Rightarrow> (string \<Rightarrow> string option) \<Rightarrow> string list \<Rightarrow> world \<Rightarrow> string option \<times> world" where
  "broadcast_loop b data tx [] w = (None, w)"
| "broadcast_loop b data tx (s # ss) w =
     (if readyState (heap w s) = OPEN
      then (case tx s of
              Some e \<Rightarrow> (Some e, w)
            | None \<Rightarrow> broadcast_loop b data tx ss
                        (w\<lparr>trace := trace w @ [WsSend s data],
                           pendingSends := pendingSends w @ [(s, BroadcastCallback b)]\<rparr>))
      else broadcast_loop b data tx ss (broadcast_complete b None w))"

definition selected :: "(string \<Rightarrow> ReferencedWebSocket \<Rightarrow> bool) option \<Rightarrow> world \<Rightarrow> string list" where
  "selected flt w = (case flt of
                       Some f \<Rightarrow> filter (\<lambda>s. f s (heap w s)) (sockets w)
                     | None \<Rightarrow> sockets w)"

text \<open>\<open>broadcast\<close>: the exception that leaves it, if any, and the state it leaves.\<close>

definition broadcast ::
  "string \<Rightarrow> (string \<Rightarrow> ReferencedWebSocket \<Rightarrow> bool) option \<Rightarrow> bool
     \<Rightarrow> (string \<Rightarrow> string option) \<Rightarrow> world \<Rightarrow> string option \<times> world" where
  "broadcast data flt has_cb tx w =
     (let sel = selected flt w;
          b = length (broadcasts w);
          w0 = w\<lparr>broadcasts := broadcasts w @
                  [\<lparr>errors = [], completed = 0, total = length sel, cb = has_cb\<rparr>]\<rparr>
      in if length sel = 0
         then (None, if has_cb then w0\<lparr>trace := trace w0 @ [BroadcastDone b []]\<rparr> else w0)
         else broadcast_loop b data tx sel w0)"

text \<open>The transport runs the callback of the k-th pending send.\<close>

definition send_completes :: "nat \<Rightarrow> string option \<Rightarrow> world \<Rightarrow> world" where
  "send_completes k err w =
     (if k < length (pendingSends w)
      then (let w1 = w\<lparr>pendingSends := take k (pendingSends w) @ drop (Suc k) (pendingSends w)\<rparr>
            in (case snd (pendingSends w ! k) of
                  BroadcastCallback b \<Rightarrow> broadcast_complete b err w1
                | SendCallback has_cb \<Rightarrow> call_cb has_cb err w1))
      else w)"

text \<open>
  The open ones among some sockets, and the errors among the results that the callbacks of
  some sends received.
\<close>

definition open_sockets :: "world \<Rightarrow> string list \<Rightarrow> string list" where
  "open_sockets w ss = filter (\<lambda>s. readyState (heap w s) = OPEN) ss"

definition send_errors :: "string option list \<Rightarrow> string list" where
  "send_errors rs = map the (filter (\<lambda>r. r \<noteq> None) rs)"

section \<open>Shutdown\<close>

definition resolve :: "nat \<Rightarrow> world \<Rightarrow> world" where
  "resolve i w =
     (if i < length (shutdowns w)
      then w\<lparr>shutdowns := (shutdowns w)[i := (shutdowns w ! i)\<lparr>resolved := True\<rparr>],
             trace := trace w @ [Resolve i]\<rparr>
      else w)"

definition closeHandler :: "nat \<Rightarrow> world \<Rightarrow> world" where
  "closeHandler i w =
     (if i < length (shutdowns w)
      then (let g = (shutdowns w ! i)\<lparr>closedCount := Suc (closedCount (shutdowns w ! i))\<rparr>;
                w1 = w\<lparr>shutdowns := (shutdowns w)[i := g]\<rparr>
            in if closedCount g = length (snapshot g) then resolve i w1 else w1)
      else w)"

text \<open>The callback of \<open>forceTimeout\<close>.\<close>

definition forceTimeout :: "nat \<Rightarrow> world \<Rightarrow> world" where
  "forceTimeout i w =
     resolve i (fold (\<lambda>s w'. if readyState (heap w' s) = OPEN then ws_terminate s w' else w')
                     (sockets w) w)"

fun shutdown_loop :: "nat \<Rightarrow> string list \<Rightarrow> world \<Rightarrow> world" where
  "shutdown_loop i [] w = w"
| "shutdown_loop i (s # ss) w =
     (let w1 = add_listener s (ShutdownOnClose i) w
      in shutdown_loop i ss
           (if readyState (heap w1 s) = OPEN
            then ws_close s 1001 ''Server shutting down'' w1
            else closeHandler i w1))"

definition gracefulShutdown :: "int option \<Rightarrow> int \<Rightarrow> world \<Rightarrow> world" where
  "gracefulShutdown timeout_arg now w =
     (let T = (case timeout_arg of None \<Rightarrow> 5000 | Some t \<Rightarrow> t);
          ss = sockets w;
          i = length (shutdowns w);
          w0 = w\<lparr>shutdowns := shutdowns w @ [\<lparr>snapshot = ss, closedCount = 0, resolved = False\<rparr>]\<rparr>
      in if length ss = 0 then resolve i w0
         else (case setTimeout (ForceTimeout i) (now + T) w0 of
                 (h, w1) \<Rightarrow>
                   (let w2 = shutdown_loop i ss w1
                    in if closedCount (shutdowns w2 ! i) = length ss
                       then clearTimeout h w2 else w2)))"

definition clear_maps :: "world \<Rightarrow> world" where
  "clear_maps w = w\<lparr>sockets := [], pendingKeys := [], rateLimitMap := Map.empty\<rparr>"

text \<open>\<open>terminate\<close>: the message of the \<open>Error\<close> it throws, or the state it leaves.\<close>

definition terminate :: "string option \<Rightarrow> world \<Rightarrow> string + world" where
  "terminate ref w =
     (if (case ref of None \<Rightarrow> True | Some r \<Rightarrow> r = [])
      then Inr (clear_maps
                  (fold (\<lambda>s w'. ws_terminate s (clear_timeoutTimer s w')) (sockets w) w))
      else (case ref of
              Some r \<Rightarrow>
                if r \<notin> set (sockets w) then Inl (''Socket not found: '' @ r)
                else Inr (ws_terminate r (clear_timeoutTimer r w))
            | None \<Rightarrow> Inr w))"

definition destroy :: "world \<Rightarrow> world" where
  "destroy w =
     (let w1 = fold (\<lambda>s w'. let w2 = clear_timeoutTimer s w'
                            in if readyState (heap w2 s) = OPEN then ws_terminate s w2 else w2)
                    (sockets w) w;
          w3 = clear_maps w1;
          w4 = (case disposer (config w3) of
                  None \<Rightarrow> w3 | Some d \<Rightarrow> w3\<lparr>trace := trace w3 @ [DisposerCall d]\<rparr>);
          w5 = emit Destroy w4
      in w5\<lparr>trace := trace w5 @ [RemoveAllListeners], errorListeners := 0\<rparr>)"

section \<open>The runtime: socket events, timers, and the steps of the system\<close>

datatype ws_event =
    CloseEvent nat string
  | ErrorEvent string
  | MessageEvent
  | PingEvent
  | PongEvent

fun listens :: "listener \<Rightarrow> ws_event \<Rightarrow> bool" where
  "listens RemovalOnClose (CloseEvent c r) = True"
| "listens (ShutdownOnClose i) (CloseEvent c r) = True"
| "listens ErrorForward (ErrorEvent e) = True"
| "listens ActivityOnMessage MessageEvent = True"
| "listens ActivityOnPing PingEvent = True"
| "listens ActivityOnPong PongEvent = True"
| "listens l ev = False"

fun once :: "listener \<Rightarrow> bool" where
  "once RemovalOnClose = True"
| "once (ShutdownOnClose i) = True"
| "once l = False"

text \<open>A listener runs: the error it throws, if any, and the state it leaves.\<close>

fun run_listener ::
  "string \<Rightarrow> ws_event \<Rightarrow> int \<Rightarrow> listener \<Rightarrow> world \<Rightarrow> string option \<times> world" where
  "run_listener ws (CloseEvent c r) now RemovalOnClose w = (None, removalOnClose ws c r w)"
| "run_listener ws ev now (ShutdownOnClose i) w = (None, closeHandler i w)"
| "run_listener ws (ErrorEvent e) now ErrorForward w = emit_error e (Some ws) w"
| "run_listener ws ev now ActivityOnMessage w = (None, resetSocketTimeout ws now w)"
| "run_listener ws ev now ActivityOnPing w = (None, resetSocketTimeout ws now w)"
| "run_listener ws ev now ActivityOnPong w = (None, resetSocketTimeout ws now w)"
| "run_listener ws ev now l w = (None, w)"

text \<open>
  The listeners of an event run in the order of registration; an error that one of them
  throws leaves the controller, and the listeners after it do not run.
\<close>

fun run_listeners :: "string \<Rightarrow> ws_event \<Rightarrow> int \<Rightarrow> listener list \<Rightarrow> world \<Rightarrow> world" where
  "run_listeners ws ev now [] w = w"
| "run_listeners ws ev now (l # ls) w =
     (case run_listener ws ev now l w of
        (None, w1) \<Rightarrow> run_listeners ws ev now ls w1
      | (Some e, w1) \<Rightarrow> w1\<lparr>trace := trace w1 @ [Uncaught e]\<rparr>)"

text \<open>
  A socket emits an event: its listeners for the event run, and those registered with
  \<open>once\<close> are gone afterwards. (The only listener that can throw is the one of \<open>'error'\<close>,
  and no listener of \<open>'error'\<close> is registered with \<open>once\<close>.)
\<close>

definition dispatch :: "string \<Rightarrow> ws_event \<Rightarrow> int \<Rightarrow> world \<Rightarrow> world" where
  "dispatch ws ev now w =
     (let ls = listeners (heap w ws);
          w0 = w\<lparr>heap := (heap w)
                 (ws := (heap w ws)\<lparr>listeners := filter (\<lambda>l. \<not> (listens l ev \<and> once l)) ls\<rparr>)\<rparr>
      in run_listeners ws ev now (filter (\<lambda>l. listens l ev) ls) w0)"

text \<open>A pending timer fires: it leaves the pending timers and its task runs.\<close>

definition fire :: "nat \<Rightarrow> world \<Rightarrow> world" where
  "fire h w =
     (case find (\<lambda>(h', d, tk). h' = h) (timers w) of
        None \<Rightarrow> w
      | Some (h', d, tk) \<Rightarrow>
          (case tk of
             IdleTimeout ws \<Rightarrow> idleTimeout ws (clearTimeout h w)
           | ForceTimeout i \<Rightarrow> forceTimeout i (clearTimeout h w)))"

text \<open>
  Everything that can happen to a controller: calls of its methods, events of its sockets,
  timers that fire, callbacks of the transport, and the transport changing the state of a
  socket.
\<close>

datatype action =
    AddStart string IncomingMessage int
  | AddResume nat int
  | GeneratePendingConnectionKey "8 word list" "8 word list" int
  | CleanupExpiredKeys int
  | SocketEvent string ws_event int
  | TimerFires nat
  | TransportState string ready_state
  | SendCompletes nat "string option"
  | Send string string bool "string \<Rightarrow> string option"
  | Broadcast string "(string \<Rightarrow> ReferencedWebSocket \<Rightarrow> bool) option" bool "string \<Rightarrow> string option"
  | GracefulShutdown "int option" int
  | ResetTimeout string int
  | Terminate "string option"
  | DestroyController
  | OnError                \<comment> \<open>the application calls \<open>controller.on('error', listener)\<close>\<close>

fun exec :: "action \<Rightarrow> world \<Rightarrow> world" where
  "exec (AddStart ws req now) w =
     (case add_start ws req now w of
        (None, w1) \<Rightarrow> w1
      | (Some a, w1) \<Rightarrow> w1\<lparr>admissions := admissions w1 @ [a]\<rparr>)"
| "exec (AddResume k now) w =
     (if k < length (admissions w)
      then add_resume (admissions w ! k) now
             (w\<lparr>admissions := take k (admissions w) @ drop (Suc k) (admissions w)\<rparr>)
      else w)"
| "exec (GeneratePendingConnectionKey keyBytes idBytes now) w =
     snd (generatePendingConnectionKey keyBytes idBytes now w)"
| "exec (CleanupExpiredKeys now) w = cleanupExpiredKeys now w"
| "exec (SocketEvent ws ev now) w = dispatch ws ev now w"
| "exec (TimerFires h) w = fire h w"
| "exec (TransportState ws st) w = w\<lparr>heap := (heap w)(ws := (heap w ws)\<lparr>readyState := st\<rparr>)\<rparr>"
| "exec (SendCompletes k err) w = send_completes k err w"
| "exec (Send ref data has_cb tx) w = snd (send ref data has_cb tx w)"
| "exec (Broadcast data flt has_cb tx) w = snd (broadcast data flt has_cb tx w)"
| "exec (GracefulShutdown timeout_arg now) w = gracefulShutdown timeout_arg now w"
| "exec (ResetTimeout ref now) w = snd (resetTimeout ref now w)"
| "exec (Terminate ref) w = (case terminate ref w of Inl e \<Rightarrow> w | Inr w1 \<Rightarrow> w1)"
| "exec DestroyController w = destroy w"
| "exec OnError w = w\<lparr>errorListeners := Suc (errorListeners w)\<rparr>"

inductive reachable :: "world \<Rightarrow> bool" where
  init: "reachable (new_world p c)"
| step: "reachable w \<Longrightarrow> reachable (exec a w)"

section \<open>Route table\<close>

datatype route = RouteString string | RouteURL string | RouteEvent string
  \<comment> \<open>a path, a \<open>URL\<close> with this \<open>pathname\<close>, a \<open>RequestEvent\<close> whose \<open>url\<close> has this \<open>pathname\<close>\<close>

datatype GenericWebSocketEndpointController =
    Endpoint WebSocketEndpointController
  | RawEndpoint string

fun route_path :: "route \<Rightarrow> string" where
  "route_path (RouteString s) = s"
| "route_path (RouteURL pathname) = pathname"
| "route_path (RouteEvent pathname) = pathname"

definition empty_config :: WebSocketEndpointConfig where
  "empty_config = \<lparr>authHandler = None, limit = None, useConnectionKeys = None,
                    pendingKeyExpiration = None, requiredParams = None, timeout = None,
                    rateLimit = None, disposer = None\<rparr>"

text \<open>
  \<open>WebSockets.continuous\<close>: the controller it returns and the route table it leaves.
\<close>

definition continuous ::
  "route \<Rightarrow> WebSocketEndpointConfig option
     \<Rightarrow> (string \<times> GenericWebSocketEndpointController) list
     \<Rightarrow> GenericWebSocketEndpointController option \<times> (string \<times> GenericWebSocketEndpointController) list" where
  "continuous r cfg allowed_routes =
     (let p = route_path r;
          routes = (if map_of allowed_routes p = None
                    then AList.update p
                           (Endpoint (new_WebSocketEndpointController p
                              ((case cfg of None \<Rightarrow> empty_config | Some c \<Rightarrow> c)
                                 \<lparr>disposer := Some (DeleteRoute p)\<rparr>)))
                           allowed_routes
                    else allowed_routes)
      in (map_of routes p, routes))"

section \<open>The invariant of the timer table\<close>

text \<open>The pending idle-timeout timers of a socket.\<close>

definition idle_timers :: "string \<Rightarrow> world \<Rightarrow> (nat \<times> int \<times> task) list" where
  "idle_timers ws w = filter (\<lambda>(h, d, tk). tk = IdleTimeout ws) (timers w)"

definition timer_table_wf ::
  "(nat \<times> int \<times> task) list \<Rightarrow> nat \<Rightarrow> (string \<Rightarrow> nat option) \<Rightarrow> bool" where
  "timer_table_wf ts n tt \<longleftrightarrow>
     distinct (map fst ts) \<and>
     (\<forall>h d tk. (h, d, tk) \<in> set ts \<longrightarrow> h < n) \<and>
     (\<forall>ws h. tt ws = Some h \<longrightarrow> h < n) \<and>
     (\<forall>h d tk ws. (h, d, tk) \<in> set ts \<longrightarrow> (tk = IdleTimeout ws) = (tt ws = Some h))"

definition timers_wf :: "world \<Rightarrow> bool" where
  "timers_wf w = timer_table_wf (timers w) (nextTimer w) (\<lambda>ws. timeoutTimer (heap w ws))"

definition cancel :: "nat \<Rightarrow> (nat \<times> int \<times> task) list \<Rightarrow> (nat \<times> int \<times> task) list" where
  "cancel h ts = filter (\<lambda>(h', d, tk). h' \<noteq> h) ts"

definition timer_view :: "world \<Rightarrow> (nat \<times> int \<times> task) list \<times> nat \<times> (string \<Rightarrow> nat option)" where
  "timer_view w = (timers w, nextTimer w, (\<lambda>s. timeoutTimer (heap w s)))"

section \<open>Close status codes: results\<close>

text \<open>
  C1, as stated, fails: invalid key and missing parameter are different causes with the
  same close code 1008.
\<close>

theorem close_codes_not_distinct:
  "InvalidKey \<noteq> MissingParam \<and> close_code InvalidKey = close_code MissingParam"
  by simp

text \<open>
  C1, amended: the codes fall into four groups (1013 for too-many-connections and
  rate-limited, 1008 for invalid key, missing parameter and authentication failure, 1001 for
  timeout, 1011 for internal error). Two different causes have the same code exactly when
  they are in the same group, and the pair of code and reason text sent on close differs
  for any two different causes, whatever the names of the missing parameters.
\<close>

theorem close_codes_grouped:
  "a \<noteq> b \<Longrightarrow>
     (close_code a = close_code b \<longleftrightarrow>
        {a, b} \<subseteq> {TooManyConnections, RateLimited} \<or>
        {a, b} \<subseteq> {InvalidKey, MissingParam, AuthFailed}) \<and>
     (close_code a, close_reason a p) \<noteq> (close_code b, close_reason b q)"
  by (cases a; cases b; simp add: INTERNAL_ERROR_value_def)

theorem close_codes_grouped_witness:
  "TooManyConnections \<noteq> RateLimited \<and>
   close_code TooManyConnections = close_code RateLimited \<and>
   (close_code TooManyConnections, close_reason TooManyConnections ''a'')
     \<noteq> (close_code RateLimited, close_reason RateLimited ''b'')"
  using close_codes_grouped [of TooManyConnections RateLimited "''a''" "''b''"] by simp

section \<open>The transport: results\<close>

text \<open>
  No call of \<open>close\<close> that the controller makes with a constant reason throws; the one
  with the name of a missing parameter throws when the name has more than 95 bytes.
\<close>

lemma close_error_constants:
  "close_error (WebSocketError_value RATE_LIMITED) ''Rate limit exceeded'' = None"
  "close_error (WebSocketError_value TOO_MANY_CONNECTIONS) ''Too many connections'' = None"
  "close_error (WebSocketError_value INVALID_KEY) ''Invalid or expired connection key'' = None"
  "close_error (WebSocketError_value AUTH_FAILED) ''Authentication failed'' = None"
  "close_error (WebSocketError_value TIMEOUT) ''Connection timeout due to inactivity'' = None"
  "close_error INTERNAL_ERROR_value ''Internal server error'' = None"
  "close_error 1001 ''Server shutting down'' = None"
  by (simp_all add: close_error_def isValidStatusCode_def INTERNAL_ERROR_value_def)

lemma close_error_missing_param:
  "close_error (WebSocketError_value MISSING_PARAM) (''Missing required parameter: '' @ p)
     = (if length p > 95 then Some ''The message must not be greater than 123 bytes'' else None)"
  by (simp add: close_error_def isValidStatusCode_def)

lemma set_readyState_proj [simp]:
  "sockets (set_readyState ws st w) = sockets w"
  "pendingKeys (set_readyState ws st w) = pendingKeys w"
  "rateLimitMap (set_readyState ws st w) = rateLimitMap w"
  "config (set_readyState ws st w) = config w"
  "timers (set_readyState ws st w) = timers w"
  "nextTimer (set_readyState ws st w) = nextTimer w"
  "shutdowns (set_readyState ws st w) = shutdowns w"
  "broadcasts (set_readyState ws st w) = broadcasts w"
  "pendingSends (set_readyState ws st w) = pendingSends w"
  "admissions (set_readyState ws st w) = admissions w"
  "errorListeners (set_readyState ws st w) = errorListeners w"
  "trace (set_readyState ws st w) = trace w"
  "timeoutTimer (heap (set_readyState ws st w) s) = timeoutTimer (heap w s)"
  "listeners (heap (set_readyState ws st w) s) = listeners (heap w s)"
  "params (heap (set_readyState ws st w) s) = params (heap w s)"
  "lastActivity (heap (set_readyState ws st w) s) = lastActivity (heap w s)"
  "readyState (heap (set_readyState ws st w) s) = (if s = ws then st else readyState (heap w s))"
  by (simp_all add: set_readyState_def)

lemma ws_close_proj [simp]:
  "sockets (ws_close ws c r w) = sockets w"
  "pendingKeys (ws_close ws c r w) = pendingKeys w"
  "rateLimitMap (ws_close ws c r w) = rateLimitMap w"
  "config (ws_close ws c r w) = config w"
  "timers (ws_close ws c r w) = timers w"
  "nextTimer (ws_close ws c r w) = nextTimer w"
  "shutdowns (ws_close ws c r w) = shutdowns w"
  "broadcasts (ws_close ws c r w) = broadcasts w"
  "pendingSends (ws_close ws c r w) = pendingSends w"
  "admissions (ws_close ws c r w) = admissions w"
  "errorListeners (ws_close ws c r w) = errorListeners w"
  "trace (ws_close ws c r w) = trace w @ [WsClose ws c r]"
  "timeoutTimer (heap (ws_close ws c r w) s) = timeoutTimer (heap w s)"
  "listeners (heap (ws_close ws c r w) s) = listeners (heap w s)"
  "params (heap (ws_close ws c r w) s) = params (heap w s)"
  "lastActivity (heap (ws_close ws c r w) s) = lastActivity (heap w s)"
  by (simp_all add: ws_close_def Let_def)

lemma ws_close_readyState:
  "readyState (heap (ws_close ws c r w) s) =
     (if s = ws \<and> (readyState (heap w s) = OPEN \<or> readyState (heap w s) = CONNECTING)
      then CLOSING else readyState (heap w s))"
  by (auto simp add: ws_close_def Let_def)

lemma ws_terminate_proj [simp]:
  "sockets (ws_terminate ws w) = sockets w"
  "pendingKeys (ws_terminate ws w) = pendingKeys w"
  "rateLimitMap (ws_terminate ws w) = rateLimitMap w"
  "config (ws_terminate ws w) = config w"
  "timers (ws_terminate ws w) = timers w"
  "nextTimer (ws_terminate ws w) = nextTimer w"
  "shutdowns (ws_terminate ws w) = shutdowns w"
  "broadcasts (ws_terminate ws w) = broadcasts w"
  "pendingSends (ws_terminate ws w) = pendingSends w"
  "admissions (ws_terminate ws w) = admissions w"
  "errorListeners (ws_terminate ws w) = errorListeners w"
  "trace (ws_terminate ws w) = trace w @ [WsTerminate ws]"
  "timeoutTimer (heap (ws_terminate ws w) s) = timeoutTimer (heap w s)"
  "listeners (heap (ws_terminate ws w) s) = listeners (heap w s)"
  "params (heap (ws_terminate ws w) s) = params (heap w s)"
  "lastActivity (heap (ws_terminate ws w) s) = lastActivity (heap w s)"
  by (simp_all add: ws_terminate_def Let_def)

lemma ws_terminate_readyState:
  "readyState (heap (ws_terminate ws w) s) =
     (if s = ws \<and> readyState (heap w s) \<noteq> CLOSED then CLOSING else readyState (heap w s))"
  by (auto simp add: ws_terminate_def Let_def)

section \<open>Rate limiter: results\<close>

lemma checkRateLimit_config: "config (snd (checkRateLimit req now w)) = config w"
  by (simp add: checkRateLimit_def emit_def Let_def split: option.splits)

lemma checkRateLimit_other:
  "getClientId req \<noteq> c \<Longrightarrow> rateLimitMap (snd (checkRateLimit req now w)) c = rateLimitMap w c"
  by (simp add: checkRateLimit_def emit_def Let_def split: option.splits)

lemma checkRateLimit_live:
  assumes "rateLimit (config w) = Some rl" and "rateLimitMap w (getClientId req) = Some e"
    and "now \<le> resetTime e"
  shows "checkRateLimit req now w =
     (if count e \<ge> max_rl rl then (False, emit (RateLimit req) w)
      else (True, w\<lparr>rateLimitMap := (rateLimitMap w)(getClientId req \<mapsto> e\<lparr>count := count e + 1\<rparr>)\<rparr>))"
  using assms by (simp add: checkRateLimit_def Let_def)

lemma checkRateLimit_fresh:
  assumes "rateLimit (config w) = Some rl"
    and "case rateLimitMap w (getClientId req) of None \<Rightarrow> True | Some e \<Rightarrow> now > resetTime e"
  shows "checkRateLimit req now w =
     (True, w\<lparr>rateLimitMap := (rateLimitMap w)
               (getClientId req \<mapsto> \<lparr>count = 1, resetTime = now + window rl\<rparr>)\<rparr>)"
  using assms by (auto simp add: checkRateLimit_def Let_def split: option.splits)

lemma checkRateLimit_run_window:
  assumes "rateLimit (config w) = Some rl" and "rateLimitMap w c = Some e"
    and "1 \<le> count e" and "count e \<le> max 1 (max_rl rl)"
    and "\<forall>(r, t) \<in> set rs. getClientId r = c \<longrightarrow> t \<le> resetTime e"
  shows "config (checkRateLimit_run rs w) = config w \<and>
         rateLimitMap (checkRateLimit_run rs w) c =
           Some (e\<lparr>count := min (count e + int (requests_of c rs)) (max 1 (max_rl rl))\<rparr>)"
  using assms
proof (induction rs arbitrary: w e)
  case Nil
  then show ?case by (simp add: requests_of_def)
next
  case (Cons a rs)
  obtain r t where a: "a = (r, t)" by (cases a)
  let ?w = "snd (checkRateLimit r t w)"
  have cfg: "config ?w = config w" by (rule checkRateLimit_config)
  show ?case
  proof (cases "getClientId r = c")
    case False
    then have m: "rateLimitMap ?w c = Some e"
      using Cons.prems(2) by (simp add: checkRateLimit_other)
    have "config (checkRateLimit_run rs ?w) = config ?w \<and>
         rateLimitMap (checkRateLimit_run rs ?w) c =
           Some (e\<lparr>count := min (count e + int (requests_of c rs)) (max 1 (max_rl rl))\<rparr>)"
      using Cons.prems by (intro Cons.IH) (simp_all add: cfg m)
    then show ?thesis using False by (simp add: a cfg requests_of_def)
  next
    case True
    then have tle: "t \<le> resetTime e" using Cons.prems(5) by (simp add: a)
    define e' where "e' = (if count e \<ge> max_rl rl then e else e\<lparr>count := count e + 1\<rparr>)"
    have m: "rateLimitMap ?w c = Some e'"
      using checkRateLimit_live [of w rl r e t] Cons.prems(1,2) True tle
      by (simp add: e'_def emit_def)
    have "config (checkRateLimit_run rs ?w) = config ?w \<and>
         rateLimitMap (checkRateLimit_run rs ?w) c =
           Some (e'\<lparr>count := min (count e' + int (requests_of c rs)) (max 1 (max_rl rl))\<rparr>)"
      using Cons.prems by (intro Cons.IH) (auto simp add: cfg m e'_def)
    moreover have "e'\<lparr>count := min (count e' + int (requests_of c rs)) (max 1 (max_rl rl))\<rparr>
        = e\<lparr>count := min (count e + int (requests_of c (a # rs))) (max 1 (max_rl rl))\<rparr>"
      using True Cons.prems(3,4) by (auto simp add: e'_def a requests_of_def)
    ultimately show ?thesis by (simp add: a cfg)
  qed
qed

text \<open>
  C5, as stated, fails: with \<open>max = 0\<close> the first request of a client is allowed, although
  \<open>1 \<le> max\<close> does not hold.
\<close>

theorem checkRateLimit_first_allowed_max_zero:
  "fst (checkRateLimit \<lparr>remoteAddress = Some ''10.0.0.1'', userAgent = Some ''curl'', searchParams = Some []\<rparr> 0
          (new_world ''/chat'' (empty_config\<lparr>rateLimit := Some \<lparr>max_rl = 0, window = 1000\<rparr>\<rparr>)))
   \<and> \<not> (1::int) \<le> max_rl \<lparr>max_rl = 0, window = 1000\<rparr>"
  by (simp add: checkRateLimit_def new_world_def new_WebSocketEndpointController_def
      empty_config_def Let_def)

text \<open>
  C5, amended: under a configured rate limit, a request of a client with no stored entry,
  or whose entry's window has elapsed, stores a fresh entry with count 1 and is allowed,
  whatever \<open>max\<close> is. Of the requests that follow from the same client while the window
  is live (other clients' requests in between do not matter), the n-th of the window, for
  n from 2, is allowed iff \<open>n \<le> max\<close>, and a denial emits a rate-limit event and changes
  nothing else. A request after the window has elapsed is allowed and resets the counter
  to 1, however many requests were denied.
\<close>

theorem checkRateLimit_nth_request:
  assumes conf: "rateLimit (config w) = Some rl"
    and fresh0: "case rateLimitMap w (getClientId req) of None \<Rightarrow> True | Some e \<Rightarrow> t0 > resetTime e"
    and inwin: "\<forall>(r, t) \<in> set rs. getClientId r = getClientId req \<longrightarrow> t \<le> t0 + window rl"
    and same: "getClientId req' = getClientId req"
    and w1: "w1 = snd (checkRateLimit req t0 w)"
    and w2: "w2 = checkRateLimit_run rs w1"
    and n: "n = 2 + int (requests_of (getClientId req) rs)"
  shows "fst (checkRateLimit req t0 w) \<and>
         rateLimitMap w1 (getClientId req) = Some \<lparr>count = 1, resetTime = t0 + window rl\<rparr> \<and>
         (t \<le> t0 + window rl \<longrightarrow>
            (fst (checkRateLimit req' t w2) \<longleftrightarrow> n \<le> max_rl rl) \<and>
            (\<not> fst (checkRateLimit req' t w2) \<longrightarrow>
               snd (checkRateLimit req' t w2) = w2\<lparr>trace := trace w2 @ [Emit (RateLimit req')]\<rparr>)) \<and>
         (t > t0 + window rl \<longrightarrow>
            fst (checkRateLimit req' t w2) \<and>
            rateLimitMap (snd (checkRateLimit req' t w2)) (getClientId req)
              = Some \<lparr>count = 1, resetTime = t + window rl\<rparr>)"
proof -
  let ?c = "getClientId req"
  let ?e = "\<lparr>count = 1, resetTime = t0 + window rl\<rparr>"
  have first: "checkRateLimit req t0 w = (True, w\<lparr>rateLimitMap := (rateLimitMap w)(?c \<mapsto> ?e)\<rparr>)"
    using checkRateLimit_fresh [OF conf fresh0] .
  then have m1: "rateLimitMap w1 ?c = Some ?e" and c1: "rateLimit (config w1) = Some rl"
    using conf by (simp_all add: w1)
  have run: "config w2 = config w1 \<and> rateLimitMap w2 ?c =
      Some (?e\<lparr>count := min (count ?e + int (requests_of ?c rs)) (max 1 (max_rl rl))\<rparr>)"
    unfolding w2 using inwin by (intro checkRateLimit_run_window [OF c1 m1]) auto
  define e2 where "e2 = ?e\<lparr>count := min (1 + int (requests_of ?c rs)) (max 1 (max_rl rl))\<rparr>"
  have m2: "rateLimitMap w2 (getClientId req') = Some e2" and c2: "rateLimit (config w2) = Some rl"
    using run c1 by (simp_all add: e2_def same)
  have live: "t \<le> t0 + window rl \<Longrightarrow> checkRateLimit req' t w2 =
     (if count e2 \<ge> max_rl rl then (False, emit (RateLimit req') w2)
      else (True, w2\<lparr>rateLimitMap := (rateLimitMap w2)(getClientId req' \<mapsto> e2\<lparr>count := count e2 + 1\<rparr>)\<rparr>))"
    using checkRateLimit_live [OF c2 m2, of t] by (simp add: e2_def)
  have cnt: "count e2 \<ge> max_rl rl \<longleftrightarrow> \<not> n \<le> max_rl rl"
    by (auto simp add: e2_def n)
  have late: "t > t0 + window rl \<Longrightarrow> checkRateLimit req' t w2 =
     (True, w2\<lparr>rateLimitMap := (rateLimitMap w2)
               (getClientId req' \<mapsto> \<lparr>count = 1, resetTime = t + window rl\<rparr>)\<rparr>)"
    using checkRateLimit_fresh [where w=w2 and req=req' and now=t, OF c2] m2 by (simp add: e2_def)
  show ?thesis
    using first m1 live late cnt by (auto simp add: emit_def same)
qed


theorem checkRateLimit_nth_request_witness:
  "rateLimit (config (new_world ''/chat'' (empty_config\<lparr>rateLimit := Some \<lparr>max_rl = 3, window = 1000\<rparr>\<rparr>)))
     = Some \<lparr>max_rl = 3, window = 1000\<rparr> \<and>
   rateLimitMap (new_world ''/chat'' (empty_config\<lparr>rateLimit := Some \<lparr>max_rl = 3, window = 1000\<rparr>\<rparr>))
     (getClientId \<lparr>remoteAddress = Some ''10.0.0.1'', userAgent = None, searchParams = Some []\<rparr>) = None \<and>
   \<not> fst (checkRateLimit \<lparr>remoteAddress = Some ''10.0.0.1'', userAgent = None, searchParams = Some []\<rparr> 30
      (checkRateLimit_run
         [(\<lparr>remoteAddress = Some ''10.0.0.1'', userAgent = None, searchParams = Some []\<rparr>, 10),
          (\<lparr>remoteAddress = Some ''10.0.0.1'', userAgent = None, searchParams = Some []\<rparr>, 20)]
         (snd (checkRateLimit \<lparr>remoteAddress = Some ''10.0.0.1'', userAgent = None, searchParams = Some []\<rparr> 0
            (new_world ''/chat'' (empty_config\<lparr>rateLimit := Some \<lparr>max_rl = 3, window = 1000\<rparr>\<rparr>))))))"
  using checkRateLimit_nth_request
    [where w = "new_world ''/chat'' (empty_config\<lparr>rateLimit := Some \<lparr>max_rl = 3, window = 1000\<rparr>\<rparr>)"
       and rl = "\<lparr>max_rl = 3, window = 1000\<rparr>"
       and req = "\<lparr>remoteAddress = Some ''10.0.0.1'', userAgent = None, searchParams = Some []\<rparr>"
       and t0 = 0
       and rs = "[(\<lparr>remoteAddress = Some ''10.0.0.1'', userAgent = None, searchParams = Some []\<rparr>, 10),
          (\<lparr>remoteAddress = Some ''10.0.0.1'', userAgent = None, searchParams = Some []\<rparr>, 20)]"
       and req' = "\<lparr>remoteAddress = Some ''10.0.0.1'', userAgent = None, searchParams = Some []\<rparr>"
       and n = 4 and t = 30, OF _ _ _ refl refl refl]
  by (simp add: new_world_def new_WebSocketEndpointController_def empty_config_def requests_of_def
      checkRateLimit_def getClientId_def or_unknown_def emit_def Let_def)

section \<open>Pending connection keys: results\<close>

lemma base64url_nonempty: "bs \<noteq> [] \<Longrightarrow> base64url bs \<noteq> []"
  by (induction bs rule: base64url.induct) simp_all

lemma validate_scan_absent:
  "\<forall>(i, pk) \<in> set ps. key pk \<noteq> k \<Longrightarrow> validate_scan k now ps = None"
  by (induction ps) auto

lemma validate_scan_update:
  assumes "\<forall>(i, pk) \<in> set ps. key pk \<noteq> key v"
  shows "validate_scan (key v) now (AList.update ident v ps) =
           (if now \<le> expiresAt v then Some ident else None)"
  using assms by (induction ps) (auto simp add: validate_scan_absent)

lemma delete_keeps_absent:
  "\<forall>(i, pk) \<in> set ps. key pk \<noteq> k \<Longrightarrow> \<forall>(i, pk) \<in> set (AList.delete ident ps). key pk \<noteq> k"
  by (auto simp add: AList.delete_eq)

lemma validateConnectionKey_absent:
  "\<forall>(i, pk) \<in> set (pendingKeys w). key pk \<noteq> k \<Longrightarrow> validateConnectionKey k now w = (False, w)"
  by (simp add: validateConnectionKey_def validate_scan_absent)

text \<open>
  C2: a key issued by \<open>generatePendingConnectionKey\<close> (32 random bytes, a token that no
  stored entry holds already) is stored with its expiry. A validation of the token at or
  before the expiry returns true and deletes the stored entry, after which no entry holds
  the token and every later validation of it returns false and changes nothing. A
  validation after the expiry returns false and leaves the controller as it was.
\<close>

theorem validateConnectionKey_once:
  assumes len: "length keyBytes = 32"
    and fresh: "\<forall>(i, pk) \<in> set (pendingKeys w). key pk \<noteq> generateConnectionKey keyBytes"
    and issue: "generatePendingConnectionKey keyBytes idBytes issued w = (k, w1)"
  shows "\<exists>ident pk. map_of (pendingKeys w1) ident = Some pk \<and> key pk = k \<and>
           expiresAt pk = issued + (case pendingKeyExpiration (config w) of
                                  None \<Rightarrow> 120000 | Some e \<Rightarrow> if e = 0 then 120000 else e) \<and>
           (\<forall>now. now \<le> expiresAt pk \<longrightarrow>
              (\<exists>w2. validateConnectionKey k now w1 = (True, w2) \<and>
                    pendingKeys w2 = AList.delete ident (pendingKeys w1) \<and>
                    (\<forall>(i, pk') \<in> set (pendingKeys w2). key pk' \<noteq> k) \<and>
                    (\<forall>now'. validateConnectionKey k now' w2 = (False, w2)))) \<and>
           (\<forall>now. expiresAt pk < now \<longrightarrow> validateConnectionKey k now w1 = (False, w1))"
proof -
  define ident where "ident = ''pending_'' @ number_toString issued @ ''_'' @ hex idBytes"
  define x where "x = issued + (case pendingKeyExpiration (config w) of
                                  None \<Rightarrow> 120000 | Some e \<Rightarrow> if e = 0 then 120000 else e)"
  define pk where "pk = \<lparr>key = k, createdAt = issued, expiresAt = x\<rparr>"
  have k: "k = generateConnectionKey keyBytes"
    using issue by (simp add: generatePendingConnectionKey_def Let_def)
  have w1: "w1 = w\<lparr>pendingKeys := AList.update ident pk (pendingKeys w)\<rparr>"
    using issue by (auto simp add: generatePendingConnectionKey_def Let_def ident_def pk_def x_def
        split: option.splits)
  have "keyBytes \<noteq> []" using len by auto
  then have kne: "k \<noteq> []"
    using base64url_nonempty [of keyBytes] by (simp add: k generateConnectionKey_def)
  have fresh': "\<forall>(i, p) \<in> set (pendingKeys w). key p \<noteq> key pk"
    using fresh by (simp add: pk_def k)
  have scan: "validate_scan k now (pendingKeys w1) = (if now \<le> x then Some ident else None)" for now
    using validate_scan_update [OF fresh', of now ident] by (simp add: w1 pk_def)
  have look: "map_of (pendingKeys w1) ident = Some pk"
    by (simp add: w1 update_conv')
  have gone: "\<forall>(i, pk') \<in> set (AList.delete ident (pendingKeys w1)). key pk' \<noteq> k"
    using delete_keeps_absent [OF fresh', of ident] by (simp add: w1 delete_update_same pk_def)
  have ok: "now \<le> x \<Longrightarrow> validateConnectionKey k now w1
      = (True, w1\<lparr>pendingKeys := AList.delete ident (pendingKeys w1)\<rparr>)" for now
    using kne by (simp add: validateConnectionKey_def scan)
  have late: "x < now \<Longrightarrow> validateConnectionKey k now w1 = (False, w1)" for now
    using kne by (simp add: validateConnectionKey_def scan)
  have again: "validateConnectionKey k now' (w1\<lparr>pendingKeys := AList.delete ident (pendingKeys w1)\<rparr>)
      = (False, w1\<lparr>pendingKeys := AList.delete ident (pendingKeys w1)\<rparr>)" for now'
    using gone by (intro validateConnectionKey_absent) simp
  show ?thesis
    apply (rule exI [of _ ident], rule exI [of _ pk])
    using look ok late again gone by (simp add: pk_def x_def)
qed


theorem validateConnectionKey_once_witness:
  "length (replicate 32 (0::8 word)) = 32 \<and>
   pendingKeys (new_world ''/chat'' empty_config) = [] \<and>
   (\<exists>w2. validateConnectionKey
            (fst (generatePendingConnectionKey (replicate 32 0) [] 1000 (new_world ''/chat'' empty_config)))
            2000
            (snd (generatePendingConnectionKey (replicate 32 0) [] 1000 (new_world ''/chat'' empty_config)))
          = (True, w2) \<and>
         validateConnectionKey
            (fst (generatePendingConnectionKey (replicate 32 0) [] 1000 (new_world ''/chat'' empty_config)))
            3000 w2 = (False, w2))"
proof -
  let ?w = "new_world ''/chat'' empty_config"
  let ?g = "generatePendingConnectionKey (replicate 32 0) [] 1000 ?w"
  have len: "length (replicate 32 (0::8 word)) = 32" by simp
  have none: "pendingKeys ?w = []"
    by (simp add: new_world_def)
  then have fresh: "\<forall>(i, pk) \<in> set (pendingKeys ?w). key pk \<noteq> generateConnectionKey (replicate 32 0)"
    by simp
  have cfg: "pendingKeyExpiration (config ?w) = None"
    by (simp add: new_world_def new_WebSocketEndpointController_def empty_config_def)
  note th = validateConnectionKey_once [where idBytes = "[]" and issued = 1000, OF len fresh surjective_pairing]
  from th obtain pk :: PendingKey where
    x: "expiresAt pk = 1000 + (case pendingKeyExpiration (config ?w) of
                                  None \<Rightarrow> 120000 | Some e \<Rightarrow> if e = 0 then 120000 else e)"
    and ok: "\<forall>now. now \<le> expiresAt pk \<longrightarrow>
              (\<exists>w2. validateConnectionKey (fst ?g) now (snd ?g) = (True, w2) \<and>
                    (\<forall>now'. validateConnectionKey (fst ?g) now' w2 = (False, w2)))"
    by (elim exE conjE) blast
  have "(2000::int) \<le> expiresAt pk" by (simp add: x cfg)
  with ok obtain w2 where "validateConnectionKey (fst ?g) 2000 (snd ?g) = (True, w2)"
    and "\<forall>now'. validateConnectionKey (fst ?g) now' w2 = (False, w2)"
    by blast
  then show ?thesis using len none by blast
qed

section \<open>Route table: results\<close>

text \<open>
  C9: \<open>continuous\<close> on a path that the route table does not hold stores a new controller
  for it, built from the given configuration, leaves the other paths as they were and
  returns the new controller; on an occupied path it returns the stored controller and
  leaves the table as it was. So every call returns what the table then holds for the path,
  and a further call for the same path, with any route form and any configuration, returns
  the same controller and the same table.
\<close>

theorem continuous_idempotent:
  assumes "continuous r cfg allowed_routes = (c1, routes1)"
    and "route_path r' = route_path r"
  shows "(map_of allowed_routes (route_path r) = None \<longrightarrow>
            c1 = Some (Endpoint (new_WebSocketEndpointController (route_path r)
                   ((case cfg of None \<Rightarrow> empty_config | Some c \<Rightarrow> c)
                      \<lparr>disposer := Some (DeleteRoute (route_path r))\<rparr>))) \<and>
            (\<forall>q. q \<noteq> route_path r \<longrightarrow> map_of routes1 q = map_of allowed_routes q)) \<and>
         (map_of allowed_routes (route_path r) \<noteq> None \<longrightarrow>
            c1 = map_of allowed_routes (route_path r) \<and> routes1 = allowed_routes) \<and>
         c1 \<noteq> None \<and> map_of routes1 (route_path r) = c1 \<and>
         continuous r' cfg' routes1 = (c1, routes1)"
  using assms by (auto simp add: continuous_def Let_def update_conv' split: if_splits)

theorem continuous_idempotent_witness:
  "route_path (RouteURL ''/chat'') = route_path (RouteString ''/chat'') \<and>
   continuous (RouteURL ''/chat'') (Some (empty_config\<lparr>limit := Some 5\<rparr>))
     (snd (continuous (RouteString ''/chat'') None []))
   = continuous (RouteString ''/chat'') None []"
  using continuous_idempotent [of "RouteString ''/chat''" None "[]"
      "fst (continuous (RouteString ''/chat'') None [])"
      "snd (continuous (RouteString ''/chat'') None [])" "RouteURL ''/chat''"
      "Some (empty_config\<lparr>limit := Some 5\<rparr>)"]
  by simp

section \<open>Unknown identities: results\<close>

text \<open>
  C10, as stated, fails: the empty string is a ref that the connection map does not hold,
  and \<open>terminate\<close> of it does not throw; it terminates every connection and clears the
  map.
\<close>

theorem terminate_empty_ref_no_throw:
  "[] \<notin> set (sockets ((new_world ''/chat'' empty_config)\<lparr>sockets := [''a'']\<rparr>)) \<and>
   \<not> isl (terminate (Some []) ((new_world ''/chat'' empty_config)\<lparr>sockets := [''a'']\<rparr>)) \<and>
   sockets (projr (terminate (Some []) ((new_world ''/chat'' empty_config)\<lparr>sockets := [''a'']\<rparr>))) = [] \<and>
   trace (projr (terminate (Some []) ((new_world ''/chat'' empty_config)\<lparr>sockets := [''a'']\<rparr>)))
     = [WsTerminate ''a'']"
  by (simp add: terminate_def new_world_def clear_maps_def ws_terminate_def clear_timeoutTimer_def
      new_socket_def Let_def set_readyState_def)

lemma send_unknown:
  "ref \<notin> set (sockets w) \<Longrightarrow>
     send ref data has_cb tx w = (False, call_cb has_cb (Some (''Socket not found: '' @ ref)) w)"
  by (simp add: send_def)

lemma send_not_open:
  "ref \<in> set (sockets w) \<Longrightarrow> readyState (heap w ref) \<noteq> OPEN \<Longrightarrow>
     send ref data has_cb tx w =
       (False, call_cb has_cb
          (Some (''Socket not ready: '' @ ready_state_value (readyState (heap w ref)))) w)"
  by (simp add: send_def)

lemma send_transport_throws:
  "ref \<in> set (sockets w) \<Longrightarrow> readyState (heap w ref) = OPEN \<Longrightarrow> tx ref = Some e \<Longrightarrow>
     send ref data has_cb tx w = (False, call_cb has_cb (Some e) w)"
  by (simp add: send_def)

text \<open>
  C10, amended: \<open>terminate(ref)\<close> with a non-empty ref that the connection map does not
  hold throws an \<open>Error\<close>, whereas \<open>send(ref, ...)\<close> with an unknown ref, a socket that is
  not open, or a transport send that throws at the call, returns false and passes an error
  to the callback if one was given, and does nothing else.
\<close>

theorem terminate_throws_send_reports:
  "(ref \<notin> set (sockets w) \<and> ref \<noteq> [] \<longrightarrow>
      terminate (Some ref) w = Inl (''Socket not found: '' @ ref)) \<and>
   (ref \<notin> set (sockets w) \<or> readyState (heap w ref) \<noteq> OPEN \<or> tx ref \<noteq> None \<longrightarrow>
      (\<exists>e. send ref data has_cb tx w =
              (False, if has_cb then w\<lparr>trace := trace w @ [SendDone (Some e)]\<rparr> else w)))"
proof (intro conjI impI)
  assume "ref \<notin> set (sockets w) \<and> ref \<noteq> []"
  then show "terminate (Some ref) w = Inl (''Socket not found: '' @ ref)"
    by (simp add: terminate_def)
next
  assume a: "ref \<notin> set (sockets w) \<or> readyState (heap w ref) \<noteq> OPEN \<or> tx ref \<noteq> None"
  have "\<exists>e. send ref data has_cb tx w = (False, call_cb has_cb (Some e) w)"
  proof (cases "ref \<in> set (sockets w)")
    case False
    then show ?thesis using send_unknown by blast
  next
    case True
    show ?thesis
    proof (cases "readyState (heap w ref) = OPEN")
      case False
      then show ?thesis using True send_not_open by blast
    next
      case isopen: True
      with a True obtain e where "tx ref = Some e" by auto
      then show ?thesis using True isopen send_transport_throws by blast
    qed
  qed
  then show "\<exists>e. send ref data has_cb tx w =
              (False, if has_cb then w\<lparr>trace := trace w @ [SendDone (Some e)]\<rparr> else w)"
    by (simp add: call_cb_def)
qed

theorem terminate_throws_send_reports_witness:
  "''b'' \<notin> set (sockets ((new_world ''/chat'' empty_config)\<lparr>sockets := [''a'']\<rparr>)) \<and> ''b'' \<noteq> [] \<and>
   terminate (Some ''b'') ((new_world ''/chat'' empty_config)\<lparr>sockets := [''a'']\<rparr>)
     = Inl ''Socket not found: b'' \<and>
   (\<exists>e. send ''b'' ''hello'' True (\<lambda>s. None) ((new_world ''/chat'' empty_config)\<lparr>sockets := [''a'']\<rparr>)
      = (False, ((new_world ''/chat'' empty_config)\<lparr>sockets := [''a'']\<rparr>)
                  \<lparr>trace := trace ((new_world ''/chat'' empty_config)\<lparr>sockets := [''a'']\<rparr>)
                     @ [SendDone (Some e)]\<rparr>))"
  using terminate_throws_send_reports [of "''b''" "(new_world ''/chat'' empty_config)\<lparr>sockets := [''a'']\<rparr>"
      "\<lambda>s. None" "''hello''" True]
  by (simp add: new_world_def)

section \<open>Admission: results\<close>

lemma missing_param_first:
  "missing_param ps rp = Some p \<Longrightarrow>
     \<exists>i<length rp. rp ! i = p \<and> p \<notin> fst ` set ps \<and> (\<forall>j<i. rp ! j \<in> fst ` set ps)"
proof (induction rp)
  case Nil
  then show ?case by simp
next
  case (Cons q rp)
  show ?case
  proof (cases "q \<in> fst ` set ps")
    case False
    with Cons.prems have "p = q" by simp
    with False show ?thesis by (intro exI [of _ 0]) simp
  next
    case True
    with Cons.prems have "missing_param ps rp = Some p" by simp
    from Cons.IH [OF this] obtain i where i: "i < length rp" "rp ! i = p" "p \<notin> fst ` set ps"
      "\<forall>j<i. rp ! j \<in> fst ` set ps" by blast
    have "\<forall>j<Suc i. (q # rp) ! j \<in> fst ` set ps"
      using True i(4) by (auto simp add: nth_Cons split: nat.splits)
    with i show ?thesis by (intro exI [of _ "Suc i"]) simp
  qed
qed

lemma missing_param_some:
  "\<exists>q\<in>set rp. q \<notin> fst ` set ps \<Longrightarrow> \<exists>p. missing_param ps rp = Some p"
  by (induction rp) auto

lemma missing_param_none:
  "\<forall>q\<in>set rp. q \<in> fst ` set ps \<Longrightarrow> missing_param ps rp = None"
  by (induction rp) auto

lemma checkRateLimit_frame:
  "sockets (snd (checkRateLimit req now w)) = sockets w \<and>
   heap (snd (checkRateLimit req now w)) = heap w \<and>
   pendingKeys (snd (checkRateLimit req now w)) = pendingKeys w \<and>
   config (snd (checkRateLimit req now w)) = config w"
  by (simp add: checkRateLimit_def emit_def Let_def split: option.splits)

lemma validateConnectionKey_frame:
  "sockets (snd (validateConnectionKey k now w)) = sockets w \<and>
   config (snd (validateConnectionKey k now w)) = config w"
  by (simp add: validateConnectionKey_def split: option.splits)

lemma validateConnectionKey_world_frame:
  "heap (snd (validateConnectionKey k now w)) = heap w \<and>
   trace (snd (validateConnectionKey k now w)) = trace w"
  by (simp add: validateConnectionKey_def split: option.splits)

lemma validateConnectionKey_fails:
  "\<not> fst (validateConnectionKey k now w) \<Longrightarrow> snd (validateConnectionKey k now w) = w"
  by (simp add: validateConnectionKey_def split: option.splits if_splits)

lemma add_start_unfold:
  "add_start ws req now w =
     (let r = checkRateLimit req now w in
      if \<not> fst r then (None, ws_close ws (WebSocketError_value RATE_LIMITED) ''Rate limit exceeded'' (snd r))
      else if at_capacity (snd r)
      then (None, ws_close ws (WebSocketError_value TOO_MANY_CONNECTIONS) ''Too many connections'' (snd r))
      else (case searchParams req of
              None \<Rightarrow> (None, add_catch ws ''Invalid URL'' (snd r))
            | Some ps \<Rightarrow>
                (let k = key_check ps now (snd r) in
                 if \<not> fst k
                 then (None, ws_close ws (WebSocketError_value INVALID_KEY)
                               ''Invalid or expired connection key'' (snd k))
                 else (case (case requiredParams (config (snd k)) of
                               None \<Rightarrow> None | Some rp \<Rightarrow> missing_param ps rp) of
                         Some p \<Rightarrow>
                           (None,
                            case close_throws ws (WebSocketError_value MISSING_PARAM)
                                   (''Missing required parameter: '' @ p) (snd k) of
                              None \<Rightarrow> ws_close ws (WebSocketError_value MISSING_PARAM)
                                        (''Missing required parameter: '' @ p) (snd k)
                            | Some e \<Rightarrow> add_catch ws e
                                  (ws_close ws (WebSocketError_value MISSING_PARAM)
                                     (''Missing required parameter: '' @ p) (snd k)))
                       | None \<Rightarrow>
                           (Some \<lparr>adm_ws = ws, adm_params = ps,
                                  adm_auth = authHandler_of (config (snd k)) req\<rparr>,
                            (snd k)\<lparr>trace := trace (snd k) @ [AuthHandlerCall req]\<rparr>)))))"
  unfolding add_start_def Let_def
  by (cases "checkRateLimit req now w"; cases "fst (checkRateLimit req now w)";
      simp split: option.splits prod.splits bool.splits)


lemma key_check_fails:
  "\<not> fst (key_check ps now w) \<Longrightarrow> snd (key_check ps now w) = w"
  by (simp add: key_check_def validateConnectionKey_fails split: if_splits)

lemma key_check_frame:
  "sockets (snd (key_check ps now w)) = sockets w \<and>
   heap (snd (key_check ps now w)) = heap w \<and>
   config (snd (key_check ps now w)) = config w"
  by (simp add: key_check_def validateConnectionKey_frame validateConnectionKey_world_frame)

lemma add_catch_proj [simp]:
  "sockets (add_catch ws e w) = sockets w"
  "pendingKeys (add_catch ws e w) = pendingKeys w"
  "config (add_catch ws e w) = config w"
  "timers (add_catch ws e w) = timers w"
  "nextTimer (add_catch ws e w) = nextTimer w"
  "errorListeners (add_catch ws e w) = errorListeners w"
  "timeoutTimer (heap (add_catch ws e w) s) = timeoutTimer (heap w s)"
  "listeners (heap (add_catch ws e w) s) = listeners (heap w s)"
  by (simp_all add: add_catch_def emit_error_def emit_def)

lemma add_start_frame:
  "sockets (snd (add_start ws req now w)) = sockets w \<and>
   timeoutTimer (heap (snd (add_start ws req now w)) s) = timeoutTimer (heap w s) \<and>
   listeners (heap (snd (add_start ws req now w)) s) = listeners (heap w s)"
  by (simp add: add_start_unfold Let_def key_check_frame
      checkRateLimit_frame split: option.splits)

text \<open>The definitions that the evaluation of a run on concrete inputs unfolds.\<close>

lemmas eval_defs = new_world_def new_WebSocketEndpointController_def empty_config_def new_socket_def
      checkRateLimit_def key_check_def at_capacity_def add_start_unfold Let_def
      add_resume_def authHandler_of_def timeout_enabled_def map_set_key_def add_listener_def emit_def
      emit_error_def add_catch_def ws_close_def ws_terminate_def set_readyState_def
      gracefulShutdown_def setTimeout_def clearTimeout_def fire_def forceTimeout_def resolve_def
      closeHandler_def dispatch_def removalOnClose_def close_throws_def close_error_def
      isValidStatusCode_def INTERNAL_ERROR_value_def

lemma validateConnectionKey_config [simp]:
  "config (snd (validateConnectionKey k now w)) = config w"
  by (simp add: validateConnectionKey_def split: option.splits)

lemma validateConnectionKey_errorListeners [simp]:
  "errorListeners (snd (validateConnectionKey k now (w :: world))) = errorListeners w"
  by (simp add: validateConnectionKey_def split: option.splits)

lemma checkRateLimit_errorListeners [simp]:
  "errorListeners (snd (checkRateLimit req now w)) = errorListeners w"
  by (simp add: checkRateLimit_def emit_def Let_def split: option.splits)

lemma add_resume_registers:
  "adm_auth a = Returns True \<Longrightarrow>
     adm_ws a \<in> set (sockets (add_resume a now w)) \<and>
     trace (add_resume a now w) = trace w @ [Emit (Connect (adm_ws a))]"
  by (simp add: add_resume_def Let_def map_set_key_def emit_def add_listener_def
        setupSocketTimeout_def setTimeout_def clear_timeoutTimer_def clearTimeout_def
        split: option.splits)

lemma generateConnectionKey_nonempty: "bs \<noteq> [] \<Longrightarrow> generateConnectionKey bs \<noteq> []"
  by (simp add: generateConnectionKey_def base64url_nonempty)

text \<open>
  C3, as stated, fails: an \<open>authHandler\<close> that throws (or whose promise rejects) is the
  failing check, and the connection is not closed with the authentication code 1008 and
  its reason. The exception goes to the \<open>catch\<close> block of \<open>add\<close>: with a listener of
  \<open>'error'\<close> registered, the error is emitted and the connection is closed with 1011 and
  \<open>'Internal server error'\<close>.
\<close>

theorem add_throwing_authHandler_internal_error:
  "trace (add ''a'' \<lparr>remoteAddress = None, userAgent = None, searchParams = Some []\<rparr> 0
            (exec OnError
               (new_world ''/chat''
                  (empty_config\<lparr>useConnectionKeys := Some False,
                                 authHandler := Some (\<lambda>req. Throws ''auth backend down'')\<rparr>))))
     = [AuthHandlerCall \<lparr>remoteAddress = None, userAgent = None, searchParams = Some []\<rparr>,
        Emit (Error ''auth backend down'' (Some ''a'')),
        WsClose ''a'' 1011 ''Internal server error''] \<and>
   WebSocketError_value AUTH_FAILED = 1008"
  by (simp add: eval_defs add_def)

text \<open>
  C3, amended: \<open>add\<close> checks, in this order, the rate limit, the capacity, the pending key
  (\<open>validateConnectionKey\<close> on the \<open>key\<close> parameter of the query, when \<open>useConnectionKeys\<close>
  is on), the required parameters, and the \<open>authHandler\<close>. The first check that rejects
  ends the admission with exactly one call of \<open>ws.close\<close>, with the code and reason of that
  check, on the state that the checks before it left: a rate-limit or capacity rejection
  leaves the pending keys untouched, a rejection before the \<open>authHandler\<close> does not call
  it, the missing-parameter rejection names the first parameter of \<open>requiredParams\<close> that
  the query does not have (for a name of at most 95 bytes, so that the reason fits a close
  frame), and no rejection registers the connection. An \<open>authHandler\<close> that returns false
  closes with the authentication code. An \<open>authHandler\<close> that throws is not a rejection but
  an internal error: on a controller with a listener of \<open>'error'\<close> the error is emitted and
  the connection closed with 1011. When every check passes, the connection is registered
  and the connect event is emitted last.
\<close>

theorem add_check_order:
  assumes rate: "checkRateLimit req now w = (rate_ok, w1)"
    and query: "searchParams req = Some ps"
    and keys: "validateConnectionKey (providedKey ps) now w1 = (key_valid, wk)"
    and keys_on: "keys_on = (useConnectionKeys (config w) = Some True)"
    and w2: "w2 = (if keys_on then wk else w1)"
    and missing: "missing = (case requiredParams (config w) of
                               None \<Rightarrow> None | Some rp \<Rightarrow> missing_param ps rp)"
    and w3: "w3 = w2\<lparr>trace := trace w2 @ [AuthHandlerCall req]\<rparr>"
  shows "(\<not> rate_ok \<longrightarrow>
            add ws req now w =
              ws_close ws (WebSocketError_value RATE_LIMITED) ''Rate limit exceeded'' w1) \<and>
         (rate_ok \<and> at_capacity w1 \<longrightarrow>
            add ws req now w =
              ws_close ws (WebSocketError_value TOO_MANY_CONNECTIONS) ''Too many connections'' w1) \<and>
         (rate_ok \<and> \<not> at_capacity w1 \<and> keys_on \<and> \<not> key_valid \<longrightarrow>
            add ws req now w =
              ws_close ws (WebSocketError_value INVALID_KEY) ''Invalid or expired connection key'' w1) \<and>
         (rate_ok \<and> \<not> at_capacity w1 \<and> (keys_on \<longrightarrow> key_valid) \<longrightarrow>
            (\<forall>p. missing = Some p \<and> length p \<le> 95 \<longrightarrow>
               add ws req now w =
                 ws_close ws (WebSocketError_value MISSING_PARAM)
                   (''Missing required parameter: '' @ p) w2 \<and>
               (\<exists>rp i. requiredParams (config w) = Some rp \<and> i < length rp \<and> rp ! i = p \<and>
                   p \<notin> fst ` set ps \<and> (\<forall>j<i. rp ! j \<in> fst ` set ps))) \<and>
            (missing = None \<and> authHandler_of (config w) req = Returns False \<longrightarrow>
               add ws req now w =
                 ws_close ws (WebSocketError_value AUTH_FAILED) ''Authentication failed'' w3) \<and>
            (\<forall>e. missing = None \<and> authHandler_of (config w) req = Throws e \<and> errorListeners w > 0 \<longrightarrow>
               add ws req now w =
                 ws_close ws INTERNAL_ERROR_value ''Internal server error''
                   (emit (Error e (Some ws)) w3)) \<and>
            (missing = None \<and> authHandler_of (config w) req = Returns True \<longrightarrow>
               ws \<in> set (sockets (add ws req now w)) \<and>
               (\<exists>tr. trace (add ws req now w) = trace w3 @ tr @ [Emit (Connect ws)]))) \<and>
         (\<not> rate_ok \<or> at_capacity w1 \<or> (keys_on \<and> \<not> key_valid) \<or>
          (\<exists>p. missing = Some p \<and> length p \<le> 95) \<or>
          (missing = None \<and> authHandler_of (config w) req = Returns False) \<longrightarrow>
            sockets (add ws req now w) = sockets w \<and>
            (\<exists>code reason. trace (add ws req now w) = trace w1 @ [WsClose ws code reason] \<or>
                            trace (add ws req now w) = trace w1 @ [AuthHandlerCall req, WsClose ws code reason])) \<and>
         (\<not> rate_ok \<or> at_capacity w1 \<longrightarrow> pendingKeys (add ws req now w) = pendingKeys w)"
proof -
  have r: "fst (checkRateLimit req now w) = rate_ok" "snd (checkRateLimit req now w) = w1"
    using rate by simp_all
  have c1: "config w1 = config w" using checkRateLimit_config [of req now w] r by simp
  have s1: "sockets w1 = sockets w" "pendingKeys w1 = pendingKeys w"
    using checkRateLimit_frame [of req now w] r by simp_all
  have e1: "errorListeners w1 = errorListeners w"
    using checkRateLimit_errorListeners [of req now w] r by simp
  have kc: "key_check ps now w1 = (if keys_on then (key_valid, wk) else (True, w1))"
    using keys by (simp add: key_check_def keys_on c1)
  have k: "fst (key_check ps now w1) = (keys_on \<longrightarrow> key_valid)" "snd (key_check ps now w1) = w2"
    by (simp_all add: kc w2)
  have wk1: "\<not> key_valid \<Longrightarrow> wk = w1"
    using validateConnectionKey_fails [of "providedKey ps" now w1] keys by simp
  have c2: "config w2 = config w"
    using validateConnectionKey_config [of "providedKey ps" now w1] keys by (simp add: w2 c1)
  have s2: "sockets w2 = sockets w"
    using validateConnectionKey_frame [of "providedKey ps" now w1] keys by (simp add: w2 s1)
  have e2: "errorListeners w2 = errorListeners w"
    using validateConnectionKey_errorListeners [of "providedKey ps" now w1] keys by (simp add: w2 e1)
  have t2: "trace w2 = trace w1"
    using validateConnectionKey_world_frame [of "providedKey ps" now w1] keys by (simp add: w2)
  have A: "add ws req now w =
              ws_close ws (WebSocketError_value RATE_LIMITED) ''Rate limit exceeded'' w1"
    if "\<not> rate_ok"
    using that by (simp add: add_def add_start_unfold Let_def r)
  have B: "add ws req now w =
              ws_close ws (WebSocketError_value TOO_MANY_CONNECTIONS) ''Too many connections'' w1"
    if "rate_ok" "at_capacity w1"
    using that by (simp add: add_def add_start_unfold Let_def r)
  have C: "add ws req now w =
              ws_close ws (WebSocketError_value INVALID_KEY) ''Invalid or expired connection key'' w1"
    if "rate_ok" "\<not> at_capacity w1" "keys_on" "\<not> key_valid"
    using that wk1 by (simp add: add_def add_start_unfold Let_def r query kc)
  have D: "add ws req now w =
                 ws_close ws (WebSocketError_value MISSING_PARAM)
                   (''Missing required parameter: '' @ p) w2"
    if "rate_ok" "\<not> at_capacity w1" "keys_on \<longrightarrow> key_valid" "missing = Some p" "length p \<le> 95" for p
  proof -
    have ct: "close_throws ws (WebSocketError_value MISSING_PARAM)
                (''Missing required parameter: '' @ p) w2 = None"
      using that(5) by (simp add: close_throws_def close_error_def isValidStatusCode_def)
    show ?thesis
      using that(1,2,3) that(4) [unfolded missing] ct
      by (simp add: add_def add_start_unfold Let_def r query k c2)
  qed
  have D': "\<exists>rp i. requiredParams (config w) = Some rp \<and> i < length rp \<and> rp ! i = p \<and>
                   p \<notin> fst ` set ps \<and> (\<forall>j<i. rp ! j \<in> fst ` set ps)"
    if "missing = Some p" for p
  proof -
    from that obtain rp where rp: "requiredParams (config w) = Some rp" "missing_param ps rp = Some p"
      unfolding missing by (cases "requiredParams (config w)") simp_all
    from missing_param_first [OF rp(2)] rp(1) show ?thesis by blast
  qed
  have start: "add_start ws req now w =
      (Some \<lparr>adm_ws = ws, adm_params = ps, adm_auth = authHandler_of (config w) req\<rparr>, w3)"
    if "rate_ok" "\<not> at_capacity w1" "keys_on \<longrightarrow> key_valid" "missing = None"
    using that(1,2,3) that(4) [unfolded missing]
    by (simp add: add_start_unfold Let_def r query k c2 w3)
  have E: "add ws req now w =
                 ws_close ws (WebSocketError_value AUTH_FAILED) ''Authentication failed'' w3"
    if "rate_ok" "\<not> at_capacity w1" "keys_on \<longrightarrow> key_valid" "missing = None"
       "authHandler_of (config w) req = Returns False"
    using start [OF that(1-4)] that(5) by (simp add: add_def add_resume_def)
  have F: "add ws req now w =
                 ws_close ws INTERNAL_ERROR_value ''Internal server error'' (emit (Error e (Some ws)) w3)"
    if "rate_ok" "\<not> at_capacity w1" "keys_on \<longrightarrow> key_valid" "missing = None"
       "authHandler_of (config w) req = Throws e" "errorListeners w > 0" for e
    using start [OF that(1-4)] that(5,6) e2
    by (simp add: add_def add_resume_def add_catch_def emit_error_def w3)
  have G: "ws \<in> set (sockets (add ws req now w)) \<and>
               (\<exists>tr. trace (add ws req now w) = trace w3 @ tr @ [Emit (Connect ws)])"
    if "rate_ok" "\<not> at_capacity w1" "keys_on \<longrightarrow> key_valid" "missing = None"
       "authHandler_of (config w) req = Returns True"
    using start [OF that(1-4)] that(5)
      add_resume_registers [of "\<lparr>adm_ws = ws, adm_params = ps, adm_auth = authHandler_of (config w) req\<rparr>" now w3]
    by (simp add: add_def)
  have H: "sockets (add ws req now w) = sockets w \<and>
            (\<exists>code reason. trace (add ws req now w) = trace w1 @ [WsClose ws code reason] \<or>
                            trace (add ws req now w) = trace w1 @ [AuthHandlerCall req, WsClose ws code reason])"
    if "\<not> rate_ok \<or> at_capacity w1 \<or> (keys_on \<and> \<not> key_valid) \<or>
          (\<exists>p. missing = Some p \<and> length p \<le> 95) \<or>
          (missing = None \<and> authHandler_of (config w) req = Returns False)"
  proof (cases "rate_ok \<and> \<not> at_capacity w1 \<and> (keys_on \<longrightarrow> key_valid)")
    case False
    then consider "\<not> rate_ok" | "rate_ok" "at_capacity w1"
      | "rate_ok" "\<not> at_capacity w1" "keys_on" "\<not> key_valid" by blast
    then show ?thesis
    proof cases
      case 1
      from A [OF this] show ?thesis by (simp add: s1)
    next
      case 2
      from B [OF this] show ?thesis by (simp add: s1)
    next
      case 3
      from C [OF this] show ?thesis by (simp add: s1)
    qed
  next
    case True
    with that consider p where "missing = Some p" "length p \<le> 95"
      | "missing = None" "authHandler_of (config w) req = Returns False" by blast
    then show ?thesis
    proof cases
      case 1
      from D [of p] True 1 show ?thesis by (simp add: s2 t2)
    next
      case 2
      from E True 2 show ?thesis by (simp add: s2 t2 w3)
    qed
  qed
  have I: "pendingKeys (add ws req now w) = pendingKeys w" if "\<not> rate_ok \<or> at_capacity w1"
  proof (cases rate_ok)
    case False
    from A [OF this] show ?thesis by (simp add: s1)
  next
    case True
    with that have "at_capacity w1" by simp
    from B [OF True this] show ?thesis by (simp add: s1)
  qed
  have P1: "\<not> rate_ok \<longrightarrow>
            add ws req now w =
              ws_close ws (WebSocketError_value RATE_LIMITED) ''Rate limit exceeded'' w1"
    using A by blast
  have P2: "rate_ok \<and> at_capacity w1 \<longrightarrow>
            add ws req now w =
              ws_close ws (WebSocketError_value TOO_MANY_CONNECTIONS) ''Too many connections'' w1"
    using B by blast
  have P3: "rate_ok \<and> \<not> at_capacity w1 \<and> keys_on \<and> \<not> key_valid \<longrightarrow>
            add ws req now w =
              ws_close ws (WebSocketError_value INVALID_KEY) ''Invalid or expired connection key'' w1"
    using C by blast
  have P4: "rate_ok \<and> \<not> at_capacity w1 \<and> (keys_on \<longrightarrow> key_valid) \<longrightarrow>
            (\<forall>p. missing = Some p \<and> length p \<le> 95 \<longrightarrow>
               add ws req now w =
                 ws_close ws (WebSocketError_value MISSING_PARAM)
                   (''Missing required parameter: '' @ p) w2 \<and>
               (\<exists>rp i. requiredParams (config w) = Some rp \<and> i < length rp \<and> rp ! i = p \<and>
                   p \<notin> fst ` set ps \<and> (\<forall>j<i. rp ! j \<in> fst ` set ps))) \<and>
            (missing = None \<and> authHandler_of (config w) req = Returns False \<longrightarrow>
               add ws req now w =
                 ws_close ws (WebSocketError_value AUTH_FAILED) ''Authentication failed'' w3) \<and>
            (\<forall>e. missing = None \<and> authHandler_of (config w) req = Throws e \<and> errorListeners w > 0 \<longrightarrow>
               add ws req now w =
                 ws_close ws INTERNAL_ERROR_value ''Internal server error''
                   (emit (Error e (Some ws)) w3)) \<and>
            (missing = None \<and> authHandler_of (config w) req = Returns True \<longrightarrow>
               ws \<in> set (sockets (add ws req now w)) \<and>
               (\<exists>tr. trace (add ws req now w) = trace w3 @ tr @ [Emit (Connect ws)]))"
  proof (intro impI)
    assume pre: "rate_ok \<and> \<not> at_capacity w1 \<and> (keys_on \<longrightarrow> key_valid)"
    then have a: "rate_ok" and b: "\<not> at_capacity w1" and c: "keys_on \<longrightarrow> key_valid" by simp_all
    have Q1: "\<forall>p. missing = Some p \<and> length p \<le> 95 \<longrightarrow>
               add ws req now w =
                 ws_close ws (WebSocketError_value MISSING_PARAM)
                   (''Missing required parameter: '' @ p) w2 \<and>
               (\<exists>rp i. requiredParams (config w) = Some rp \<and> i < length rp \<and> rp ! i = p \<and>
                   p \<notin> fst ` set ps \<and> (\<forall>j<i. rp ! j \<in> fst ` set ps))"
      using D [OF a b c] D' by blast
    have Q2: "missing = None \<and> authHandler_of (config w) req = Returns False \<longrightarrow>
               add ws req now w =
                 ws_close ws (WebSocketError_value AUTH_FAILED) ''Authentication failed'' w3"
      using E [OF a b c] by blast
    have Q3: "\<forall>e. missing = None \<and> authHandler_of (config w) req = Throws e \<and> errorListeners w > 0 \<longrightarrow>
               add ws req now w =
                 ws_close ws INTERNAL_ERROR_value ''Internal server error''
                   (emit (Error e (Some ws)) w3)"
      using F [OF a b c] by blast
    have Q4: "missing = None \<and> authHandler_of (config w) req = Returns True \<longrightarrow>
               ws \<in> set (sockets (add ws req now w)) \<and>
               (\<exists>tr. trace (add ws req now w) = trace w3 @ tr @ [Emit (Connect ws)])"
      using G [OF a b c] by blast
    show "(\<forall>p. missing = Some p \<and> length p \<le> 95 \<longrightarrow>
               add ws req now w =
                 ws_close ws (WebSocketError_value MISSING_PARAM)
                   (''Missing required parameter: '' @ p) w2 \<and>
               (\<exists>rp i. requiredParams (config w) = Some rp \<and> i < length rp \<and> rp ! i = p \<and>
                   p \<notin> fst ` set ps \<and> (\<forall>j<i. rp ! j \<in> fst ` set ps))) \<and>
            (missing = None \<and> authHandler_of (config w) req = Returns False \<longrightarrow>
               add ws req now w =
                 ws_close ws (WebSocketError_value AUTH_FAILED) ''Authentication failed'' w3) \<and>
            (\<forall>e. missing = None \<and> authHandler_of (config w) req = Throws e \<and> errorListeners w > 0 \<longrightarrow>
               add ws req now w =
                 ws_close ws INTERNAL_ERROR_value ''Internal server error''
                   (emit (Error e (Some ws)) w3)) \<and>
            (missing = None \<and> authHandler_of (config w) req = Returns True \<longrightarrow>
               ws \<in> set (sockets (add ws req now w)) \<and>
               (\<exists>tr. trace (add ws req now w) = trace w3 @ tr @ [Emit (Connect ws)]))"
      by (rule conjI [OF Q1 conjI [OF Q2 conjI [OF Q3 Q4]]])
  qed
  have P5: "\<not> rate_ok \<or> at_capacity w1 \<or> (keys_on \<and> \<not> key_valid) \<or>
          (\<exists>p. missing = Some p \<and> length p \<le> 95) \<or>
          (missing = None \<and> authHandler_of (config w) req = Returns False) \<longrightarrow>
            sockets (add ws req now w) = sockets w \<and>
            (\<exists>code reason. trace (add ws req now w) = trace w1 @ [WsClose ws code reason] \<or>
                            trace (add ws req now w) = trace w1 @ [AuthHandlerCall req, WsClose ws code reason])"
    using H by (intro impI)
  have P6: "\<not> rate_ok \<or> at_capacity w1 \<longrightarrow> pendingKeys (add ws req now w) = pendingKeys w"
    using I by (intro impI)
  show ?thesis by (rule conjI [OF P1 conjI [OF P2 conjI [OF P3 conjI [OF P4 conjI [OF P5 P6]]]]])
qed

theorem add_check_order_witness:
  "trace (add ''a'' 
        \<lparr>remoteAddress = None, userAgent = None,
         searchParams = Some [(''key'', (generateConnectionKey (replicate 32 0))), (''room'', ''1'')]\<rparr>
      5 
      (exec (GeneratePendingConnectionKey (replicate 32 0) (replicate 8 0) 0)
        (new_world ''/chat''
          (empty_config\<lparr>authHandler := Some (\<lambda>r. Returns False), limit := Some 10,
             useConnectionKeys := Some True, requiredParams := Some [''room'', ''user''],
             rateLimit := Some \<lparr>max_rl = 5, window = 1000\<rparr>\<rparr>)))
   ) = [WsClose ''a'' 1008 ''Missing required parameter: user''] \<and>
   pendingKeys (add ''a'' 
        \<lparr>remoteAddress = None, userAgent = None,
         searchParams = Some [(''key'', (generateConnectionKey (replicate 32 0))), (''room'', ''1'')]\<rparr>
      5 
      (exec (GeneratePendingConnectionKey (replicate 32 0) (replicate 8 0) 0)
        (new_world ''/chat''
          (empty_config\<lparr>authHandler := Some (\<lambda>r. Returns False), limit := Some 10,
             useConnectionKeys := Some True, requiredParams := Some [''room'', ''user''],
             rateLimit := Some \<lparr>max_rl = 5, window = 1000\<rparr>\<rparr>)))
   ) = [] \<and>
   sockets (add ''a'' 
        \<lparr>remoteAddress = None, userAgent = None,
         searchParams = Some [(''key'', (generateConnectionKey (replicate 32 0))), (''room'', ''1'')]\<rparr>
      5 
      (exec (GeneratePendingConnectionKey (replicate 32 0) (replicate 8 0) 0)
        (new_world ''/chat''
          (empty_config\<lparr>authHandler := Some (\<lambda>r. Returns False), limit := Some 10,
             useConnectionKeys := Some True, requiredParams := Some [''room'', ''user''],
             rateLimit := Some \<lparr>max_rl = 5, window = 1000\<rparr>\<rparr>)))
   ) = [] \<and>
   trace (add ''a'' 
        \<lparr>remoteAddress = None, userAgent = None,
         searchParams = Some [(''key'', (generateConnectionKey (replicate 32 0))), (''room'', ''1''), (''user'', ''u'')]\<rparr>
      5 
      (exec (GeneratePendingConnectionKey (replicate 32 0) (replicate 8 0) 0)
        (new_world ''/chat''
          (empty_config\<lparr>authHandler := Some (\<lambda>r. Returns False), limit := Some 10,
             useConnectionKeys := Some True, requiredParams := Some [''room'', ''user''],
             rateLimit := Some \<lparr>max_rl = 5, window = 1000\<rparr>\<rparr>)))
   ) =
     [AuthHandlerCall 
        \<lparr>remoteAddress = None, userAgent = None,
         searchParams = Some [(''key'', (generateConnectionKey (replicate 32 0))), (''room'', ''1''), (''user'', ''u'')]\<rparr>
     , WsClose ''a'' 1008 ''Authentication failed''] \<and>
   pendingKeys (add ''a'' 
        \<lparr>remoteAddress = None, userAgent = None,
         searchParams = Some [(''key'', (generateConnectionKey (replicate 32 0))), (''room'', ''1''), (''user'', ''u'')]\<rparr>
      5 
      (exec (GeneratePendingConnectionKey (replicate 32 0) (replicate 8 0) 0)
        (new_world ''/chat''
          (empty_config\<lparr>authHandler := Some (\<lambda>r. Returns False), limit := Some 10,
             useConnectionKeys := Some True, requiredParams := Some [''room'', ''user''],
             rateLimit := Some \<lparr>max_rl = 5, window = 1000\<rparr>\<rparr>)))
   ) = [] \<and>
   sockets (add ''a'' 
        \<lparr>remoteAddress = None, userAgent = None,
         searchParams = Some [(''key'', (generateConnectionKey (replicate 32 0))), (''room'', ''1''), (''user'', ''u'')]\<rparr>
      5 
      (exec (GeneratePendingConnectionKey (replicate 32 0) (replicate 8 0) 0)
        (new_world ''/chat''
          (empty_config\<lparr>authHandler := Some (\<lambda>r. Returns False), limit := Some 10,
             useConnectionKeys := Some True, requiredParams := Some [''room'', ''user''],
             rateLimit := Some \<lparr>max_rl = 5, window = 1000\<rparr>\<rparr>)))
   ) = [] \<and>
   trace (add ''a'' 
        \<lparr>remoteAddress = None, userAgent = None,
         searchParams = Some [(''room'', ''1''), (''user'', ''u'')]\<rparr>
      5 
      (exec (GeneratePendingConnectionKey (replicate 32 0) (replicate 8 0) 0)
        (new_world ''/chat''
          (empty_config\<lparr>authHandler := Some (\<lambda>r. Returns False), limit := Some 10,
             useConnectionKeys := Some True, requiredParams := Some [''room'', ''user''],
             rateLimit := Some \<lparr>max_rl = 5, window = 1000\<rparr>\<rparr>)))
   ) = [WsClose ''a'' 1008 ''Invalid or expired connection key''] \<and>
   pendingKeys (add ''a'' 
        \<lparr>remoteAddress = None, userAgent = None,
         searchParams = Some [(''room'', ''1''), (''user'', ''u'')]\<rparr>
      5 
      (exec (GeneratePendingConnectionKey (replicate 32 0) (replicate 8 0) 0)
        (new_world ''/chat''
          (empty_config\<lparr>authHandler := Some (\<lambda>r. Returns False), limit := Some 10,
             useConnectionKeys := Some True, requiredParams := Some [''room'', ''user''],
             rateLimit := Some \<lparr>max_rl = 5, window = 1000\<rparr>\<rparr>)))
   ) = pendingKeys 
      (exec (GeneratePendingConnectionKey (replicate 32 0) (replicate 8 0) 0)
        (new_world ''/chat''
          (empty_config\<lparr>authHandler := Some (\<lambda>r. Returns False), limit := Some 10,
             useConnectionKeys := Some True, requiredParams := Some [''room'', ''user''],
             rateLimit := Some \<lparr>max_rl = 5, window = 1000\<rparr>\<rparr>)))
   "
proof -
  define K where "K = generateConnectionKey (replicate 32 0)"
  define W where "W = (exec (GeneratePendingConnectionKey (replicate 32 0) (replicate 8 0) 0)
        (new_world ''/chat''
          (empty_config\<lparr>authHandler := Some (\<lambda>r. Returns False), limit := Some 10,
             useConnectionKeys := Some True, requiredParams := Some [''room'', ''user''],
             rateLimit := Some \<lparr>max_rl = 5, window = 1000\<rparr>\<rparr>)))"
  define rm where "rm = \<lparr>remoteAddress = None, userAgent = None,
         searchParams = Some [(''key'', (generateConnectionKey (replicate 32 0))), (''room'', ''1'')]\<rparr>"
  define ra where "ra = \<lparr>remoteAddress = None, userAgent = None,
         searchParams = Some [(''key'', (generateConnectionKey (replicate 32 0))), (''room'', ''1''), (''user'', ''u'')]\<rparr>"
  define rn where "rn = \<lparr>remoteAddress = None, userAgent = None,
         searchParams = Some [(''room'', ''1''), (''user'', ''u'')]\<rparr>"
  have K: "K \<noteq> []" unfolding K_def by (rule generateConnectionKey_nonempty) simp
  note ev = eval_defs generatePendingConnectionKey_def validateConnectionKey_def providedKey_def
  have base: "config W = (empty_config\<lparr>authHandler := Some (\<lambda>r. Returns False), limit := Some 10,
             useConnectionKeys := Some True, requiredParams := Some [''room'', ''user''],
             rateLimit := Some \<lparr>max_rl = 5, window = 1000\<rparr>\<rparr>)" "sockets W = []" "trace W = []"
    "\<exists>ident. pendingKeys W = [(ident, \<lparr>key = K, createdAt = 0, expiresAt = 120000\<rparr>)]"
    "rateLimitMap W = Map.empty" "errorListeners W = 0" "readyState (heap W ''a'') = OPEN"
    unfolding W_def K_def by (simp_all add: ev)
  from base(4) obtain ident where pk: "pendingKeys W = [(ident, \<lparr>key = K, createdAt = 0, expiresAt = 120000\<rparr>)]"
    by blast
  have rate: "fst (checkRateLimit r 5 W) = True"
    "pendingKeys (snd (checkRateLimit r 5 W)) = pendingKeys W"
    "sockets (snd (checkRateLimit r 5 W)) = []"
    "trace (snd (checkRateLimit r 5 W)) = []"
    "config (snd (checkRateLimit r 5 W)) = config W" for r
    by (simp_all add: checkRateLimit_def Let_def base empty_config_def)
  have cap: "\<not> at_capacity (snd (checkRateLimit r 5 W))" for r
    by (simp add: at_capacity_def rate base empty_config_def)
  have vK: "validateConnectionKey K 5 (snd (checkRateLimit r 5 W)) =
              (True, (snd (checkRateLimit r 5 W))\<lparr>pendingKeys := []\<rparr>)" for r
    using K by (simp add: validateConnectionKey_def rate pk)
  have vN: "validateConnectionKey [] 5 (snd (checkRateLimit r 5 W)) = (False, snd (checkRateLimit r 5 W))" for r
    by (simp add: validateConnectionKey_def)
  have qm: "searchParams rm = Some [(''key'', K), (''room'', ''1'')]"
    and qa: "searchParams ra = Some [(''key'', K), (''room'', ''1''), (''user'', ''u'')]"
    and qn: "searchParams rn = Some [(''room'', ''1''), (''user'', ''u'')]"
    by (simp_all add: rm_def ra_def rn_def K_def)
  have m: "trace (add ''a'' rm 5 W) = [WsClose ''a'' 1008 ''Missing required parameter: user''] \<and>
           pendingKeys (add ''a'' rm 5 W) = [] \<and> sockets (add ''a'' rm 5 W) = []"
    using add_check_order [where w = W and now = 5 and ws = "''a''" and req = rm,
            OF surjective_pairing qm surjective_pairing refl refl refl refl]
          rate [of rm] cap [of rm] vK [of rm]
    by (simp add: providedKey_def base empty_config_def)
  have a: "trace (add ''a'' ra 5 W) = [AuthHandlerCall ra, WsClose ''a'' 1008 ''Authentication failed''] \<and>
           pendingKeys (add ''a'' ra 5 W) = [] \<and> sockets (add ''a'' ra 5 W) = []"
    using add_check_order [where w = W and now = 5 and ws = "''a''" and req = ra,
            OF surjective_pairing qa surjective_pairing refl refl refl refl]
          rate [of ra] cap [of ra] vK [of ra]
    by (simp add: providedKey_def base empty_config_def authHandler_of_def)
  have n: "trace (add ''a'' rn 5 W) = [WsClose ''a'' 1008 ''Invalid or expired connection key''] \<and>
           pendingKeys (add ''a'' rn 5 W) = pendingKeys W"
    using add_check_order [where w = W and now = 5 and ws = "''a''" and req = rn,
            OF surjective_pairing qn surjective_pairing refl refl refl refl]
          rate [of rn] cap [of rn] vN [of rn]
    by (simp add: providedKey_def base empty_config_def)
  from m a n show ?thesis unfolding W_def rm_def ra_def rn_def K_def by blast
qed

text \<open>
  Outside the amended statement: in the \<open>catch\<close> block \<open>this.emit('error', ...)\<close> comes before
  \<open>ws.close(1011, ...)\<close>, and on a controller with no listener of \<open>'error'\<close> the emit throws.
  Then the connection of an \<open>authHandler\<close> that throws is not closed at all, and the
  promise of \<open>add\<close> rejects.
\<close>

lemma add_throwing_authHandler_not_closed:
  "let W = new_world ''/chat''
             (empty_config\<lparr>useConnectionKeys := Some False,
                            authHandler := Some (\<lambda>req. Throws ''auth backend down'')\<rparr>);
       req = \<lparr>remoteAddress = None, userAgent = None, searchParams = Some []\<rparr>;
       V = add ''a'' req 0 W
   in errorListeners W = 0 \<and>
      trace V = [AuthHandlerCall req, Uncaught ''auth backend down''] \<and>
      readyState (heap V ''a'') = OPEN \<and>
      sockets V = []"
  by (simp add: eval_defs add_def)

section \<open>The connection map: results\<close>

lemma sockets_emit [simp]: "sockets (emit e w) = sockets w"
  by (simp add: emit_def)

lemma sockets_clearTimeout [simp]: "sockets (clearTimeout h w) = sockets w"
  by (simp add: clearTimeout_def)

lemma sockets_clear_timeoutTimer [simp]: "sockets (clear_timeoutTimer ws w) = sockets w"
  by (simp add: clear_timeoutTimer_def split: option.splits)

lemma sockets_setTimeout [simp]: "sockets (snd (setTimeout tk d w)) = sockets w"
  by (simp add: setTimeout_def)

lemma sockets_setupSocketTimeout [simp]: "sockets (setupSocketTimeout ws now w) = sockets w"
  by (simp add: setupSocketTimeout_def setTimeout_def split: option.splits)

lemma sockets_resetSocketTimeout [simp]: "sockets (resetSocketTimeout ws now w) = sockets w"
  by (simp add: resetSocketTimeout_def)

lemma sockets_add_listener [simp]: "sockets (add_listener ws l w) = sockets w"
  by (simp add: add_listener_def)

lemma sockets_resolve [simp]: "sockets (resolve i w) = sockets w"
  by (simp add: resolve_def)

lemma sockets_closeHandler [simp]: "sockets (closeHandler i w) = sockets w"
  by (simp add: closeHandler_def Let_def)

lemma sockets_call_cb [simp]: "sockets (call_cb c e w) = sockets w"
  by (simp add: call_cb_def)

lemma sockets_broadcast_complete [simp]: "sockets (broadcast_complete b e w) = sockets w"
  by (simp add: broadcast_complete_def Let_def)

lemma sockets_broadcast_loop [simp]: "sockets (snd (broadcast_loop b d tx ss w)) = sockets w"
  by (induction ss arbitrary: w) (simp_all split: option.splits)

lemma sockets_broadcast [simp]: "sockets (snd (broadcast d f c tx w)) = sockets w"
  by (simp add: broadcast_def Let_def)

lemma sockets_send [simp]: "sockets (snd (send r d c tx w)) = sockets w"
  by (simp add: send_def split: option.splits)

lemma sockets_send_completes [simp]: "sockets (send_completes k e w) = sockets w"
  by (simp add: send_completes_def Let_def split: continuation.splits)

lemma sockets_shutdown_loop [simp]: "sockets (shutdown_loop i ss w) = sockets w"
  by (induction ss arbitrary: w) (simp_all add: Let_def)

lemma sockets_gracefulShutdown [simp]: "sockets (gracefulShutdown t now w) = sockets w"
  by (simp add: gracefulShutdown_def Let_def setTimeout_def split: prod.splits)

lemma sockets_fold_terminate_open [simp]:
  "sockets (fold (\<lambda>s w'. if readyState (heap w' s) = OPEN then ws_terminate s w' else w') ss w) = sockets w"
  by (induction ss arbitrary: w) simp_all

lemma sockets_forceTimeout [simp]: "sockets (forceTimeout i w) = sockets w"
  by (simp add: forceTimeout_def)

lemma sockets_idleTimeout [simp]: "sockets (idleTimeout ws w) = sockets w"
  by (simp add: idleTimeout_def)

lemma sockets_fire [simp]: "sockets (fire h w) = sockets w"
  by (simp add: fire_def split: option.splits prod.splits task.splits)

lemma sockets_generatePendingConnectionKey [simp]:
  "sockets (snd (generatePendingConnectionKey kb ib now w)) = sockets w"
  by (simp add: generatePendingConnectionKey_def Let_def)

lemma sockets_cleanupExpiredKeys [simp]: "sockets (cleanupExpiredKeys now w) = sockets w"
  by (simp add: cleanupExpiredKeys_def)

lemma sockets_resetTimeout [simp]: "sockets (snd (resetTimeout r now w)) = sockets w"
  by (simp add: resetTimeout_def)

lemma sockets_add_resume: "set (sockets w) \<subseteq> set (sockets (add_resume a now w)) \<and>
    length (sockets w) \<le> length (sockets (add_resume a now w))"
  by (simp add: add_resume_def map_set_key_def Let_def subset_insertI
      split: outcome.splits bool.splits)

lemma sockets_removalOnClose: "sockets (removalOnClose ws c r w) = removeAll ws (sockets w)"
  by (simp add: removalOnClose_def Let_def split: option.splits)

lemma sockets_emit_error [simp]: "sockets (snd (emit_error e ws w)) = sockets w"
  by (simp add: emit_error_def)

lemma sockets_run_listener:
  "l \<noteq> RemovalOnClose \<Longrightarrow> sockets (snd (run_listener ws ev now l w)) = sockets w"
  by (cases l; cases ev) simp_all

lemma sockets_fold_run_listener:
  "RemovalOnClose \<notin> set ls \<Longrightarrow> sockets (run_listeners ws ev now ls w) = sockets w"
proof (induction ls arbitrary: w)
  case Nil
  show ?case by simp
next
  case (Cons l ls)
  obtain r w1 where rl: "run_listener ws ev now l w = (r, w1)" by (cases "run_listener ws ev now l w")
  have "l \<noteq> RemovalOnClose" using Cons.prems by auto
  from sockets_run_listener [OF this, of ws ev now w] have "sockets w1 = sockets w" using rl by simp
  moreover have "sockets (run_listeners ws ev now ls w1) = sockets w1"
    using Cons.prems by (intro Cons.IH) simp
  ultimately show ?case using rl by (cases r) simp_all
qed

lemma sockets_dispatch:
  "RemovalOnClose \<notin> set (listeners (heap w ws)) \<Longrightarrow> sockets (dispatch ws ev now w) = sockets w"
  by (simp add: dispatch_def Let_def sockets_fold_run_listener)

lemma listens_RemovalOnClose: "listens RemovalOnClose ev \<Longrightarrow> \<exists>c r. ev = CloseEvent c r"
  by (cases ev) simp_all

lemma sockets_dispatch_other:
  "\<forall>c r. ev \<noteq> CloseEvent c r \<Longrightarrow> sockets (dispatch ws ev now w) = sockets w"
proof -
  assume a: "\<forall>c r. ev \<noteq> CloseEvent c r"
  then have "RemovalOnClose \<notin> set (filter (\<lambda>l. listens l ev) (listeners (heap w ws)))"
    by (auto dest: listens_RemovalOnClose)
  then show ?thesis by (simp add: dispatch_def Let_def sockets_fold_run_listener)
qed

lemma sockets_terminate_one:
  "r \<noteq> [] \<Longrightarrow> sockets (case terminate (Some r) w of Inl e \<Rightarrow> w | Inr w1 \<Rightarrow> w1) = sockets w"
  by (simp add: terminate_def)

lemma sockets_exec:
  assumes "\<not> (\<exists>ws c r now. a = SocketEvent ws (CloseEvent c r) now \<and>
               RemovalOnClose \<in> set (listeners (heap w ws)))"
    and "a \<noteq> Terminate None" and "a \<noteq> Terminate (Some [])" and "a \<noteq> DestroyController"
  shows "set (sockets w) \<subseteq> set (sockets (exec a w)) \<and>
         length (sockets w) \<le> length (sockets (exec a w))"
proof (cases a)
  case (AddStart ws req now)
  obtain adm w1 where s: "add_start ws req now w = (adm, w1)" by (cases "add_start ws req now w")
  then have "sockets w1 = sockets w" using add_start_frame [of ws req now w] by simp
  then show ?thesis by (cases adm) (simp_all add: AddStart s)
next
  case (AddResume k now)
  then show ?thesis
    using sockets_add_resume
      [of "w\<lparr>admissions := take k (admissions w) @ drop (Suc k) (admissions w)\<rparr>" "admissions w ! k" now]
    by simp
next
  case (SocketEvent ws ev now)
  show ?thesis
  proof (cases "\<exists>c r. ev = CloseEvent c r")
    case True
    with assms(1) SocketEvent have "RemovalOnClose \<notin> set (listeners (heap w ws))" by auto
    then show ?thesis by (simp add: SocketEvent sockets_dispatch)
  next
    case False
    then show ?thesis by (simp add: SocketEvent sockets_dispatch_other)
  qed
next
  case (Terminate ref)
  with assms(2,3) obtain r where "ref = Some r" "r \<noteq> []" by (cases ref) auto
  then show ?thesis using sockets_terminate_one [of r w] by (simp add: Terminate)
next
  case DestroyController
  with assms(4) show ?thesis by simp
qed simp_all


lemma removalOnClose_effect:
  "sockets (removalOnClose ws c r w) = removeAll ws (sockets w) \<and>
   timeoutTimer (heap (removalOnClose ws c r w) ws) = None \<and>
   (\<forall>h. timeoutTimer (heap w ws) = Some h \<longrightarrow> h \<notin> fst ` set (timers (removalOnClose ws c r w))) \<and>
   trace (removalOnClose ws c r w) = trace w @ [Emit (Disconnect ws c r)]"
  by (cases "timeoutTimer (heap w ws)")
     (auto simp add: removalOnClose_def Let_def emit_def clearTimeout_def)

lemma sockets_destroy: "sockets (destroy w) = []"
  by (simp add: destroy_def Let_def clear_maps_def emit_def split: option.splits)

lemma sockets_terminate_all:
  "ref = None \<or> ref = Some [] \<Longrightarrow>
     sockets (case terminate ref w of Inl e \<Rightarrow> w | Inr w1 \<Rightarrow> w1) = []"
  by (auto simp add: terminate_def clear_maps_def)

text \<open>
  C8, as stated, fails: \<open>destroy\<close> is not the close handler, and it empties the connection
  map.
\<close>

theorem destroy_decreases_connection_count:
  "length (sockets (exec DestroyController ((new_world ''/chat'' empty_config)\<lparr>sockets := [''a'']\<rparr>)))
     < length (sockets ((new_world ''/chat'' empty_config)\<lparr>sockets := [''a'']\<rparr>))"
  by (simp add: sockets_destroy)

text \<open>
  C8, amended: the close handler deletes its connection from the connection map, cancels
  the pending timeout timer of the connection if there is one, and emits a disconnect
  event with the closing code and reason. \<open>destroy\<close> and \<open>terminate\<close> without a ref
  empty the whole map. Nothing else removes an entry: a step of the system after which the
  map is smaller, or has lost a key, is a close event on a socket that carries the close
  handler, a \<open>terminate\<close> without a ref (or with the empty string), or \<open>destroy\<close>.
\<close>

theorem sockets_removed_only_by:
  "(sockets (removalOnClose ws c r w) = removeAll ws (sockets w) \<and>
    timeoutTimer (heap (removalOnClose ws c r w) ws) = None \<and>
    (\<forall>h. timeoutTimer (heap w ws) = Some h \<longrightarrow> h \<notin> fst ` set (timers (removalOnClose ws c r w))) \<and>
    trace (removalOnClose ws c r w) = trace w @ [Emit (Disconnect ws c r)]) \<and>
   sockets (exec DestroyController w) = [] \<and>
   sockets (exec (Terminate None) w) = [] \<and>
   (length (sockets (exec a w)) < length (sockets w) \<or> \<not> set (sockets w) \<subseteq> set (sockets (exec a w)) \<longrightarrow>
      (\<exists>s code reason now. a = SocketEvent s (CloseEvent code reason) now \<and>
                  RemovalOnClose \<in> set (listeners (heap w s))) \<or>
      a = Terminate None \<or> a = Terminate (Some []) \<or> a = DestroyController)"
proof -
  have "(\<exists>s code reason now. a = SocketEvent s (CloseEvent code reason) now \<and>
                  RemovalOnClose \<in> set (listeners (heap w s))) \<or>
      a = Terminate None \<or> a = Terminate (Some []) \<or> a = DestroyController"
    if "length (sockets (exec a w)) < length (sockets w) \<or> \<not> set (sockets w) \<subseteq> set (sockets (exec a w))"
    using sockets_exec [of a w] that by (meson not_less)
  then show ?thesis
    using removalOnClose_effect [of ws c r w] sockets_destroy [of w] sockets_terminate_all [of None w]
    by simp
qed

theorem sockets_removed_only_by_witness:
  "length (sockets (exec (SocketEvent ''a'' (CloseEvent 1000 ''bye'') 0)
      ((new_world ''/chat'' empty_config)
         \<lparr>sockets := [''a''], heap := (\<lambda>r. new_socket\<lparr>listeners := [RemovalOnClose, ErrorForward]\<rparr>)\<rparr>)))
     < length (sockets ((new_world ''/chat'' empty_config)
         \<lparr>sockets := [''a''], heap := (\<lambda>r. new_socket\<lparr>listeners := [RemovalOnClose, ErrorForward]\<rparr>)\<rparr>)) \<and>
   RemovalOnClose \<in> set (listeners (heap ((new_world ''/chat'' empty_config)
         \<lparr>sockets := [''a''], heap := (\<lambda>r. new_socket\<lparr>listeners := [RemovalOnClose, ErrorForward]\<rparr>)\<rparr>) ''a''))"
  using sockets_removed_only_by
    [where a = "SocketEvent ''a'' (CloseEvent 1000 ''bye'') 0"
       and w = "(new_world ''/chat'' empty_config)
         \<lparr>sockets := [''a''], heap := (\<lambda>r. new_socket\<lparr>listeners := [RemovalOnClose, ErrorForward]\<rparr>)\<rparr>"]
  by (simp add: dispatch_def Let_def new_socket_def sockets_removalOnClose)

section \<open>Broadcast: results\<close>

lemma broadcast_complete_proj:
  assumes "b < length (broadcasts w)"
  shows "heap (broadcast_complete b err w) = heap w"
    and "pendingSends (broadcast_complete b err w) = pendingSends w"
    and "broadcasts (broadcast_complete b err w) =
           (broadcasts w)[b := (broadcasts w ! b)
              \<lparr>errors := errors (broadcasts w ! b) @ send_errors [err],
               completed := Suc (completed (broadcasts w ! b))\<rparr>]"
    and "trace (broadcast_complete b err w) =
           trace w @ (if Suc (completed (broadcasts w ! b)) = total (broadcasts w ! b) \<and> cb (broadcasts w ! b)
                      then [BroadcastDone b (errors (broadcasts w ! b) @ send_errors [err])] else [])"
  using assms
  by (simp_all add: broadcast_complete_def Let_def send_errors_def split: option.splits)

lemma broadcast_loop_proj:
  assumes "b < length (broadcasts w)"
    and "\<forall>s\<in>set (open_sockets w ss). tx s = None"
    and "completed (broadcasts w ! b) + pending + length ss = total (broadcasts w ! b)"
  shows "fst (broadcast_loop b data tx ss w) = None \<and>
         heap (snd (broadcast_loop b data tx ss w)) = heap w \<and>
         pendingSends (snd (broadcast_loop b data tx ss w)) =
           pendingSends w @ map (\<lambda>s. (s, BroadcastCallback b)) (open_sockets w ss) \<and>
         broadcasts (snd (broadcast_loop b data tx ss w)) =
           (broadcasts w)[b := (broadcasts w ! b)
              \<lparr>completed := completed (broadcasts w ! b) + (length ss - length (open_sockets w ss))\<rparr>] \<and>
         trace (snd (broadcast_loop b data tx ss w)) =
           trace w @ map (\<lambda>s. WsSend s data) (open_sockets w ss) @
             (if pending = 0 \<and> open_sockets w ss = [] \<and> ss \<noteq> [] \<and> cb (broadcasts w ! b)
              then [BroadcastDone b (errors (broadcasts w ! b))] else [])"
  using assms
proof (induction ss arbitrary: w pending)
  case Nil
  then show ?case by (simp add: open_sockets_def)
next
  case (Cons s ss)
  show ?case
  proof (cases "readyState (heap w s) = OPEN")
    case True
    let ?w = "w\<lparr>trace := trace w @ [WsSend s data],
                pendingSends := pendingSends w @ [(s, BroadcastCallback b)]\<rparr>"
    have tx: "tx s = None" using Cons.prems(2) True by (simp add: open_sockets_def)
    have os: "open_sockets ?w ss = open_sockets w ss" by (simp add: open_sockets_def)
    have IH: "fst (broadcast_loop b data tx ss ?w) = None \<and>
         heap (snd (broadcast_loop b data tx ss ?w)) = heap ?w \<and>
         pendingSends (snd (broadcast_loop b data tx ss ?w)) =
           pendingSends ?w @ map (\<lambda>s. (s, BroadcastCallback b)) (open_sockets ?w ss) \<and>
         broadcasts (snd (broadcast_loop b data tx ss ?w)) =
           (broadcasts ?w)[b := (broadcasts ?w ! b)
              \<lparr>completed := completed (broadcasts ?w ! b) + (length ss - length (open_sockets ?w ss))\<rparr>] \<and>
         trace (snd (broadcast_loop b data tx ss ?w)) =
           trace ?w @ map (\<lambda>s. WsSend s data) (open_sockets ?w ss) @
             (if Suc pending = 0 \<and> open_sockets ?w ss = [] \<and> ss \<noteq> [] \<and> cb (broadcasts ?w ! b)
              then [BroadcastDone b (errors (broadcasts ?w ! b))] else [])"
      using Cons.prems by (intro Cons.IH) (simp_all add: os open_sockets_def)
    have len: "length (open_sockets w ss) \<le> length ss" by (simp add: open_sockets_def)
    show ?thesis
      using IH True tx len by (simp add: os) (simp add: open_sockets_def Suc_diff_le)
  next
    case False
    let ?w = "broadcast_complete b None w"
    note bc = broadcast_complete_proj [OF Cons.prems(1), of None]
    have os: "open_sockets ?w ss = open_sockets w ss" by (simp add: open_sockets_def bc(1))
    have os': "open_sockets w (s # ss) = open_sockets w ss" using False by (simp add: open_sockets_def)
    have b': "b < length (broadcasts ?w)" using Cons.prems(1) by (simp add: bc(3))
    have nth: "broadcasts ?w ! b = (broadcasts w ! b)\<lparr>completed := Suc (completed (broadcasts w ! b))\<rparr>"
      using Cons.prems(1) by (simp add: bc(3) send_errors_def)
    have IH: "fst (broadcast_loop b data tx ss ?w) = None \<and>
         heap (snd (broadcast_loop b data tx ss ?w)) = heap ?w \<and>
         pendingSends (snd (broadcast_loop b data tx ss ?w)) =
           pendingSends ?w @ map (\<lambda>s. (s, BroadcastCallback b)) (open_sockets ?w ss) \<and>
         broadcasts (snd (broadcast_loop b data tx ss ?w)) =
           (broadcasts ?w)[b := (broadcasts ?w ! b)
              \<lparr>completed := completed (broadcasts ?w ! b) + (length ss - length (open_sockets ?w ss))\<rparr>] \<and>
         trace (snd (broadcast_loop b data tx ss ?w)) =
           trace ?w @ map (\<lambda>s. WsSend s data) (open_sockets ?w ss) @
             (if pending = 0 \<and> open_sockets ?w ss = [] \<and> ss \<noteq> [] \<and> cb (broadcasts ?w ! b)
              then [BroadcastDone b (errors (broadcasts ?w ! b))] else [])"
      using Cons.prems(2,3) b' by (intro Cons.IH) (simp_all add: os os' nth)
    have len: "length (open_sockets w ss) \<le> length ss" by (simp add: open_sockets_def)
    have done_now: "Suc (completed (broadcasts w ! b)) = total (broadcasts w ! b) \<longleftrightarrow> pending = 0 \<and> ss = []"
    proof -
      have e: "completed (broadcasts w ! b) + pending + Suc (length ss) = total (broadcasts w ! b)"
        using Cons.prems(3) by simp
      have "Suc (completed (broadcasts w ! b)) = total (broadcasts w ! b) \<longleftrightarrow> pending + length ss = 0"
        using e by linarith
      then show ?thesis by simp
    qed
    have emp: "ss = [] \<Longrightarrow> open_sockets w ss = []" by (simp add: open_sockets_def)
    show ?thesis
      using IH False len Cons.prems(1)
      by (auto simp add: os os' nth bc done_now send_errors_def emp Suc_diff_le)
  qed
qed


lemma send_errors_Cons: "send_errors (r # rs) = send_errors [r] @ send_errors rs"
  by (simp add: send_errors_def)

lemma send_errors_Nil [simp]: "send_errors [] = []"
  by (simp add: send_errors_def)

lemma broadcast_callbacks_proj:
  assumes "b < length (broadcasts w)"
    and "completed (broadcasts w ! b) + length rs \<le> total (broadcasts w ! b)"
  shows "broadcasts (fold (broadcast_complete b) rs w) =
           (broadcasts w)[b := (broadcasts w ! b)
              \<lparr>errors := errors (broadcasts w ! b) @ send_errors rs,
               completed := completed (broadcasts w ! b) + length rs\<rparr>] \<and>
         trace (fold (broadcast_complete b) rs w) =
           trace w @ (if rs \<noteq> [] \<and> completed (broadcasts w ! b) + length rs = total (broadcasts w ! b)
                         \<and> cb (broadcasts w ! b)
                      then [BroadcastDone b (errors (broadcasts w ! b) @ send_errors rs)] else [])"
  using assms
proof (induction rs arbitrary: w)
  case Nil
  then show ?case by (simp add: send_errors_def)
next
  case (Cons r rs)
  let ?w = "broadcast_complete b r w"
  note bc = broadcast_complete_proj [OF Cons.prems(1), of r]
  have b': "b < length (broadcasts ?w)" using Cons.prems(1) by (simp add: bc(3))
  have nth: "broadcasts ?w ! b = (broadcasts w ! b)
      \<lparr>errors := errors (broadcasts w ! b) @ send_errors [r],
       completed := Suc (completed (broadcasts w ! b))\<rparr>"
    using Cons.prems(1) by (simp add: bc(3))
  have le: "completed (broadcasts ?w ! b) + length rs \<le> total (broadcasts ?w ! b)"
    using Cons.prems(2) by (simp add: nth)
  note IH = Cons.IH [OF b' le]
  have first: "rs = []" if "Suc (completed (broadcasts w ! b)) = total (broadcasts w ! b)"
  proof -
    have "completed (broadcasts w ! b) + Suc (length rs) \<le> total (broadcasts w ! b)"
      using Cons.prems(2) by simp
    with that have "length rs = 0" by linarith
    then show ?thesis by simp
  qed
  show ?case
    using IH Cons.prems(1) first
    by (auto simp add: nth bc(3,4) send_errors_Cons [of r rs])
qed

text \<open>
  \<open>broadcast\<close> over the selected connections, when the transport accepts every send
  call, returns normally and calls \<open>socket.send\<close> exactly on the open ones, in order,
  skipping the others. If no selected connection is open (none selected, or none of them
  open) and a callback was given, it is called at once with an empty list. Otherwise the
  callback is not called while results of the sends are outstanding, and when the last of
  them arrives it is called with exactly the errors that the sends reported, so that
  connections that were not open add nothing to the list.
\<close>

lemma broadcast_delivery:
  assumes tx: "\<forall>s\<in>set (open_sockets w (selected flt w)). tx s = None"
    and rs: "length rs = length (open_sockets w (selected flt w))"
  shows "fst (broadcast data flt has_cb tx w) = None \<and>
         trace (snd (broadcast data flt has_cb tx w)) =
           trace w @ map (\<lambda>s. WsSend s data) (open_sockets w (selected flt w)) @
             (if open_sockets w (selected flt w) = [] \<and> has_cb
              then [BroadcastDone (length (broadcasts w)) []] else []) \<and>
         pendingSends (snd (broadcast data flt has_cb tx w)) =
           pendingSends w @ map (\<lambda>s. (s, BroadcastCallback (length (broadcasts w))))
                                (open_sockets w (selected flt w)) \<and>
         (\<forall>k<length rs.
            trace (fold (broadcast_complete (length (broadcasts w))) (take k rs)
                     (snd (broadcast data flt has_cb tx w)))
              = trace (snd (broadcast data flt has_cb tx w))) \<and>
         (rs \<noteq> [] \<longrightarrow>
            trace (fold (broadcast_complete (length (broadcasts w))) rs
                     (snd (broadcast data flt has_cb tx w)))
              = trace (snd (broadcast data flt has_cb tx w)) @
                  (if has_cb then [BroadcastDone (length (broadcasts w)) (send_errors rs)] else []))"
proof -
  let ?sel = "selected flt w"
  let ?b = "length (broadcasts w)"
  let ?s0 = "\<lparr>errors = [], completed = 0, total = length ?sel, cb = has_cb\<rparr>"
  let ?w0 = "w\<lparr>broadcasts := broadcasts w @ [?s0]\<rparr>"
  let ?w1 = "snd (broadcast data flt has_cb tx w)"
  let ?op = "open_sockets w ?sel"
  have os: "open_sockets ?w0 ?sel = ?op" by (simp add: open_sockets_def)
  have len: "length ?op \<le> length ?sel" by (simp add: open_sockets_def)
  show ?thesis
  proof (cases "?sel = []")
    case True
    then have "?op = []" by (simp add: open_sockets_def)
    with True rs show ?thesis by (simp add: broadcast_def Let_def)
  next
    case False
    have w1: "broadcast data flt has_cb tx w = broadcast_loop ?b data tx ?sel ?w0"
      using False by (simp add: broadcast_def Let_def)
    have loop: "fst (broadcast_loop ?b data tx ?sel ?w0) = None \<and>
         heap (snd (broadcast_loop ?b data tx ?sel ?w0)) = heap ?w0 \<and>
         pendingSends (snd (broadcast_loop ?b data tx ?sel ?w0)) =
           pendingSends ?w0 @ map (\<lambda>s. (s, BroadcastCallback ?b)) (open_sockets ?w0 ?sel) \<and>
         broadcasts (snd (broadcast_loop ?b data tx ?sel ?w0)) =
           (broadcasts ?w0)[?b := (broadcasts ?w0 ! ?b)
              \<lparr>completed := completed (broadcasts ?w0 ! ?b) + (length ?sel - length (open_sockets ?w0 ?sel))\<rparr>] \<and>
         trace (snd (broadcast_loop ?b data tx ?sel ?w0)) =
           trace ?w0 @ map (\<lambda>s. WsSend s data) (open_sockets ?w0 ?sel) @
             (if (0::nat) = 0 \<and> open_sockets ?w0 ?sel = [] \<and> ?sel \<noteq> [] \<and> cb (broadcasts ?w0 ! ?b)
              then [BroadcastDone ?b (errors (broadcasts ?w0 ! ?b))] else [])"
      using tx by (intro broadcast_loop_proj) (simp_all add: os)
    have b1: "?b < length (broadcasts ?w1)" using loop by (simp add: w1)
    have nth1: "broadcasts ?w1 ! ?b = ?s0\<lparr>completed := length ?sel - length ?op\<rparr>"
      using loop by (simp add: w1 os)
    have A: "fst (broadcast data flt has_cb tx w) = None" using loop by (simp add: w1)
    have B: "trace ?w1 = trace w @ map (\<lambda>s. WsSend s data) ?op @
             (if ?op = [] \<and> has_cb then [BroadcastDone ?b []] else [])"
      using loop False by (simp add: w1 os)
    have C: "pendingSends ?w1 = pendingSends w @ map (\<lambda>s. (s, BroadcastCallback ?b)) ?op"
      using loop by (simp add: w1 os)
    have D: "trace (fold (broadcast_complete ?b) (take k rs) ?w1) = trace ?w1" if "k < length rs" for k
    proof -
      have le: "completed (broadcasts ?w1 ! ?b) + length (take k rs) \<le> total (broadcasts ?w1 ! ?b)"
        using that rs len by (simp add: nth1)
      have ne: "completed (broadcasts ?w1 ! ?b) + length (take k rs) \<noteq> total (broadcasts ?w1 ! ?b)"
        using that rs len by (simp add: nth1)
      show ?thesis
        using broadcast_callbacks_proj [OF b1 le] ne by simp
    qed
    have E: "trace (fold (broadcast_complete ?b) rs ?w1) = trace ?w1 @
                  (if has_cb then [BroadcastDone ?b (send_errors rs)] else [])" if "rs \<noteq> []"
    proof -
      have eq: "completed (broadcasts ?w1 ! ?b) + length rs = total (broadcasts ?w1 ! ?b)"
        using rs len by (simp add: nth1)
      then have le: "completed (broadcasts ?w1 ! ?b) + length rs \<le> total (broadcasts ?w1 ! ?b)"
        by simp
      have er: "errors (broadcasts ?w1 ! ?b) = []" and cb1: "cb (broadcasts ?w1 ! ?b) = has_cb"
        by (simp_all add: nth1)
      have "trace (fold (broadcast_complete ?b) rs ?w1) =
           trace ?w1 @ (if rs \<noteq> [] \<and> completed (broadcasts ?w1 ! ?b) + length rs = total (broadcasts ?w1 ! ?b)
                         \<and> cb (broadcasts ?w1 ! ?b)
                      then [BroadcastDone ?b (errors (broadcasts ?w1 ! ?b) @ send_errors rs)] else [])"
        using broadcast_callbacks_proj [OF b1 le] by blast
      then show ?thesis
        unfolding er cb1 using eq that by simp
    qed
    from A B C D E show ?thesis by blast
  qed
qed


lemma broadcast_delivery_example:
  "open_sockets
        ((new_world ''/chat'' empty_config)
           \<lparr>sockets := [''a'', ''b'', ''c''],
            heap := (\<lambda>r. if r = ''b'' then new_socket\<lparr>readyState := CLOSED\<rparr> else new_socket)\<rparr>)
        (selected None
           ((new_world ''/chat'' empty_config)
              \<lparr>sockets := [''a'', ''b'', ''c''],
               heap := (\<lambda>r. if r = ''b'' then new_socket\<lparr>readyState := CLOSED\<rparr> else new_socket)\<rparr>))
     = [''a'', ''c''] \<and>
   trace (fold (broadcast_complete 0) [None, Some ''EPIPE'']
      (snd (broadcast ''hi'' None True (\<lambda>s. None)
         ((new_world ''/chat'' empty_config)
            \<lparr>sockets := [''a'', ''b'', ''c''],
             heap := (\<lambda>r. if r = ''b'' then new_socket\<lparr>readyState := CLOSED\<rparr> else new_socket)\<rparr>))))
     = [WsSend ''a'' ''hi'', WsSend ''c'' ''hi'', BroadcastDone 0 [''EPIPE'']]"
  using broadcast_delivery
    [where w = "(new_world ''/chat'' empty_config)
            \<lparr>sockets := [''a'', ''b'', ''c''],
             heap := (\<lambda>r. if r = ''b'' then new_socket\<lparr>readyState := CLOSED\<rparr> else new_socket)\<rparr>"
       and flt = None and tx = "\<lambda>s. None" and rs = "[None, Some ''EPIPE'']"
       and data = "''hi''" and has_cb = True]
  by (simp add: open_sockets_def selected_def new_world_def new_socket_def send_errors_def)

text \<open>
  C6, on the code: \<open>broadcast\<close> calls \<open>socket.send\<close> outside any \<open>try\<close>, unlike \<open>send\<close>.
  Two connections are admitted and open, and the transport rejects the payload at the call:
  the exception leaves \<open>broadcast\<close> at the first connection, the send to the second
  open connection is never attempted, no send is outstanding, and the completion
  callback is never called.
\<close>

theorem broadcast_aborts_on_throw:
  "let W = fold exec [AddStart ''a'' \<lparr>remoteAddress = None, userAgent = None, searchParams = Some []\<rparr> 0,
                      AddResume 0 0,
                      AddStart ''b'' \<lparr>remoteAddress = None, userAgent = None, searchParams = Some []\<rparr> 1,
                      AddResume 0 1]
             (new_world ''/chat'' (empty_config\<lparr>useConnectionKeys := Some False\<rparr>));
       r = broadcast ''payload'' None True (\<lambda>s. Some ''TypeError'') W
   in open_sockets W (selected None W) = [''a'', ''b''] \<and>
      fst r = Some ''TypeError'' \<and>
      trace (snd r) = trace W \<and>
      pendingSends (snd r) = [] \<and>
      WsSend ''b'' ''payload'' \<notin> set (trace (snd r)) \<and>
      (\<forall>errs. BroadcastDone 0 errs \<notin> set (trace (snd r)))"
  by (simp add: eval_defs open_sockets_def selected_def broadcast_def)

section \<open>Idle-timeout timers: results\<close>

lemma set_cancel: "set (cancel h ts) = {x \<in> set ts. fst x \<noteq> h}"
  by (auto simp add: cancel_def)

lemma distinct_cancel: "distinct (map fst ts) \<Longrightarrow> distinct (map fst (cancel h ts))"
  by (simp add: cancel_def distinct_map_filter)

lemma tableI:
  assumes "distinct (map fst ts)"
    and "\<And>h d tk. (h, d, tk) \<in> set ts \<Longrightarrow> h < n"
    and "\<And>ws h. tt ws = Some h \<Longrightarrow> h < n"
    and "\<And>h d tk ws. (h, d, tk) \<in> set ts \<Longrightarrow> (tk = IdleTimeout ws) = (tt ws = Some h)"
  shows "timer_table_wf ts n tt"
  unfolding timer_table_wf_def using assms by blast

lemma table_distinct: "timer_table_wf ts n tt \<Longrightarrow> distinct (map fst ts)"
  by (simp add: timer_table_wf_def)

lemma table_bound: "timer_table_wf ts n tt \<Longrightarrow> (h, d, tk) \<in> set ts \<Longrightarrow> h < n"
  unfolding timer_table_wf_def by blast

lemma table_handle_bound: "timer_table_wf ts n tt \<Longrightarrow> tt ws = Some h \<Longrightarrow> h < n"
  unfolding timer_table_wf_def by blast

lemma table_owner:
  "timer_table_wf ts n tt \<Longrightarrow> (h, d, tk) \<in> set ts \<Longrightarrow> (tk = IdleTimeout ws) = (tt ws = Some h)"
  unfolding timer_table_wf_def by blast

lemma in_cancel: "(h', d, tk) \<in> set (cancel h ts) \<longleftrightarrow> (h', d, tk) \<in> set ts \<and> h' \<noteq> h"
  by (auto simp add: cancel_def)

lemma table_cancel:
  assumes "timer_table_wf ts n tt"
  shows "timer_table_wf (cancel h ts) n tt"
proof (rule tableI)
  show "distinct (map fst (cancel h ts))"
    using assms by (simp add: distinct_cancel table_distinct)
  show "h' < n" if "(h', d, tk) \<in> set (cancel h ts)" for h' d tk
    using that assms table_bound by (simp add: in_cancel) blast
  show "h' < n" if "tt ws = Some h'" for ws h'
    using that assms table_handle_bound by blast
  show "(tk = IdleTimeout ws) = (tt ws = Some h')" if "(h', d, tk) \<in> set (cancel h ts)" for h' d tk ws
    using that assms table_owner by (simp add: in_cancel) blast
qed

lemma table_unset:
  assumes "timer_table_wf ts n tt" and "tt ws = Some h"
  shows "timer_table_wf (cancel h ts) n (tt(ws := None))"
proof (rule tableI)
  show "distinct (map fst (cancel h ts))"
    using assms by (simp add: distinct_cancel table_distinct)
  show "h' < n" if "(h', d, tk) \<in> set (cancel h ts)" for h' d tk
    using that assms(1) table_bound by (simp add: in_cancel) blast
  show "h' < n" if "(tt(ws := None)) s = Some h'" for s h'
    using that assms(1) table_handle_bound [of ts n tt s h'] by (simp split: if_splits)
  show "(tk = IdleTimeout s) = ((tt(ws := None)) s = Some h')"
    if "(h', d, tk) \<in> set (cancel h ts)" for h' d tk s
  proof -
    from that have m: "(h', d, tk) \<in> set ts" and ne: "h' \<noteq> h" by (simp_all add: in_cancel)
    have o: "(tk = IdleTimeout s) = (tt s = Some h')" using table_owner [OF assms(1) m] .
    show ?thesis using o ne assms(2) by auto
  qed
qed

lemma table_force:
  assumes "timer_table_wf ts n tt"
  shows "timer_table_wf (ts @ [(n, d, ForceTimeout i)]) (Suc n) tt"
proof (rule tableI)
  have "n \<notin> fst ` set ts" using table_bound [OF assms] by force
  then show "distinct (map fst (ts @ [(n, d, ForceTimeout i)]))"
    using table_distinct [OF assms] by simp
  show "h < Suc n" if "(h, d', tk) \<in> set (ts @ [(n, d, ForceTimeout i)])" for h d' tk
    using that table_bound [OF assms, of h d' tk] by auto
  show "h < Suc n" if "tt ws = Some h" for ws h
    using that table_handle_bound [OF assms, of ws h] by simp
  show "(tk = IdleTimeout ws) = (tt ws = Some h)"
    if "(h, d', tk) \<in> set (ts @ [(n, d, ForceTimeout i)])" for h d' tk ws
  proof (cases "(h, d', tk) \<in> set ts")
    case True
    then show ?thesis using table_owner [OF assms] by blast
  next
    case False
    with that have "h = n" "tk = ForceTimeout i" by simp_all
    then show ?thesis using table_handle_bound [OF assms, of ws n] by auto
  qed
qed

lemma table_arm:
  assumes "timer_table_wf ts n tt"
    and "ts' = (case tt ws of None \<Rightarrow> ts | Some h \<Rightarrow> cancel h ts)"
  shows "timer_table_wf (ts' @ [(n, d, IdleTimeout ws)]) (Suc n) (tt(ws := Some n))"
proof (rule tableI)
  have wf': "timer_table_wf ts' n tt"
    using assms table_cancel by (auto split: option.splits)
  have none: "tk \<noteq> IdleTimeout ws" if "(h, d', tk) \<in> set ts'" for h d' tk
  proof
    assume tk: "tk = IdleTimeout ws"
    show False
    proof (cases "tt ws")
      case None
      with that assms(2) have "(h, d', tk) \<in> set ts" by simp
      from table_owner [OF assms(1) this, of ws] tk None show False by simp
    next
      case (Some h0)
      with that assms(2) have m: "(h, d', tk) \<in> set ts" and ne: "h \<noteq> h0" by (simp_all add: in_cancel)
      from table_owner [OF assms(1) m, of ws] tk Some ne show False by simp
    qed
  qed
  have "n \<notin> fst ` set ts'" using table_bound [OF wf'] by force
  then show "distinct (map fst (ts' @ [(n, d, IdleTimeout ws)]))"
    using table_distinct [OF wf'] by simp
  show "h < Suc n" if "(h, d', tk) \<in> set (ts' @ [(n, d, IdleTimeout ws)])" for h d' tk
    using that table_bound [OF wf', of h d' tk] by auto
  show "h < Suc n" if "(tt(ws := Some n)) s = Some h" for s h
    using that table_handle_bound [OF assms(1), of s h] by (auto split: if_splits)
  show "(tk = IdleTimeout s) = ((tt(ws := Some n)) s = Some h)"
    if "(h, d', tk) \<in> set (ts' @ [(n, d, IdleTimeout ws)])" for h d' tk s
  proof (cases "(h, d', tk) \<in> set ts'")
    case True
    have lt: "h < n" using table_bound [OF wf' True] .
    have o: "(tk = IdleTimeout s) = (tt s = Some h)" using table_owner [OF wf' True] .
    show ?thesis using o lt none [OF True] by auto
  next
    case False
    with that have e: "h = n" "tk = IdleTimeout ws" by simp_all
    show ?thesis using e table_handle_bound [OF assms(1), of s n] by auto
  qed
qed

lemma table_idle_unique:
  assumes "timer_table_wf ts n tt"
  shows "length (filter (\<lambda>(h, d, tk). tk = IdleTimeout ws) ts) \<le> 1"
proof -
  let ?f = "filter (\<lambda>(h, d, tk). tk = IdleTimeout ws) ts"
  have d: "distinct (map fst ?f)"
    using assms by (simp add: table_distinct distinct_map_filter)
  have "fst x = the (tt ws)" if "x \<in> set ?f" for x
  proof -
    obtain h d' tk where x: "x = (h, d', tk)" by (cases x)
    with that have "(h, d', tk) \<in> set ts" "tk = IdleTimeout ws" by auto
    from table_owner [OF assms this(1), of ws] this(2) show ?thesis by (simp add: x)
  qed
  then have "set (map fst ?f) \<subseteq> {the (tt ws)}" by auto
  then have "card (set (map fst ?f)) \<le> card {the (tt ws)}"
    by (intro card_mono) simp_all
  moreover have "card (set (map fst ?f)) = length (map fst ?f)"
    using d by (rule distinct_card)
  ultimately have "length (map fst ?f) \<le> 1" by simp
  then show ?thesis by simp
qed

lemma timers_wf_view: "timer_view w' = timer_view w \<Longrightarrow> timers_wf w' = timers_wf w"
  by (simp add: timer_view_def timers_wf_def)

lemma tv_upd [simp]:
  "timer_view (w\<lparr>trace := tr\<rparr>) = timer_view w"
  "timer_view (w\<lparr>admissions := a\<rparr>) = timer_view w"
  "timer_view (w\<lparr>broadcasts := bs\<rparr>) = timer_view w"
  "timer_view (w\<lparr>pendingSends := ps\<rparr>) = timer_view w"
  "timer_view (w\<lparr>shutdowns := sh\<rparr>) = timer_view w"
  "timer_view (w\<lparr>sockets := ss\<rparr>) = timer_view w"
  "timer_view (w\<lparr>pendingKeys := pk\<rparr>) = timer_view w"
  "timer_view (w\<lparr>rateLimitMap := rl\<rparr>) = timer_view w"
  "timer_view (w\<lparr>errorListeners := n\<rparr>) = timer_view w"
  by (simp_all add: timer_view_def)

lemma tv_set_readyState [simp]: "timer_view (set_readyState ws st w) = timer_view w"
  by (simp add: timer_view_def)

lemma tv_heap_upd [simp]:
  "timer_view (w\<lparr>heap := (heap w)(ws := (heap w ws)\<lparr>readyState := st\<rparr>)\<rparr>) = timer_view w"
  "timer_view (w\<lparr>heap := (heap w)(ws := (heap w ws)\<lparr>lastActivity := la\<rparr>)\<rparr>) = timer_view w"
  "timer_view (w\<lparr>heap := (heap w)(ws := (heap w ws)\<lparr>listeners := ls\<rparr>)\<rparr>) = timer_view w"
  "timer_view (w\<lparr>heap := (heap w)(ws := (heap w ws)\<lparr>params := ps\<rparr>)\<rparr>) = timer_view w"
  by (simp_all add: timer_view_def fun_eq_iff)

lemma tv_emit [simp]: "timer_view (emit e w) = timer_view w"
  by (simp add: emit_def)

lemma tv_emit_error [simp]: "timer_view (snd (emit_error e ws w)) = timer_view w"
  by (simp add: emit_error_def)

lemma tv_ws_close [simp]: "timer_view (ws_close ws c r w) = timer_view w"
  by (simp add: timer_view_def)

lemma tv_ws_terminate [simp]: "timer_view (ws_terminate ws w) = timer_view w"
  by (simp add: timer_view_def)

lemma tv_add_listener [simp]: "timer_view (add_listener ws l w) = timer_view w"
  by (simp add: add_listener_def)

lemma tv_resolve [simp]: "timer_view (resolve i w) = timer_view w"
  by (simp add: resolve_def)

lemma tv_closeHandler [simp]: "timer_view (closeHandler i w) = timer_view w"
  by (simp add: closeHandler_def Let_def)

lemma tv_call_cb [simp]: "timer_view (call_cb c e w) = timer_view w"
  by (simp add: call_cb_def)

lemma tv_broadcast_complete [simp]: "timer_view (broadcast_complete b e w) = timer_view w"
  by (simp add: broadcast_complete_def Let_def)

lemma tv_broadcast_loop [simp]: "timer_view (snd (broadcast_loop b d tx ss w)) = timer_view w"
  by (induction ss arbitrary: w) (simp_all split: option.splits)

lemma tv_broadcast [simp]: "timer_view (snd (broadcast d f c tx w)) = timer_view w"
  by (simp add: broadcast_def Let_def)

lemma tv_send [simp]: "timer_view (snd (send r d c tx w)) = timer_view w"
  by (simp add: send_def split: option.splits)

lemma tv_send_completes [simp]: "timer_view (send_completes k e w) = timer_view w"
  by (simp add: send_completes_def Let_def split: continuation.splits)

lemma tv_checkRateLimit [simp]: "timer_view (snd (checkRateLimit req now w)) = timer_view w"
  by (simp add: checkRateLimit_def Let_def split: option.splits)

lemma tv_validateConnectionKey [simp]:
  "timer_view (snd (validateConnectionKey k now w)) = timer_view w"
  by (simp add: validateConnectionKey_def split: option.splits)

lemma tv_key_check [simp]: "timer_view (snd (key_check ps now w)) = timer_view w"
  by (simp add: key_check_def)

lemma tv_generatePendingConnectionKey [simp]:
  "timer_view (snd (generatePendingConnectionKey kb ib now w)) = timer_view w"
  by (simp add: generatePendingConnectionKey_def Let_def)

lemma tv_cleanupExpiredKeys [simp]: "timer_view (cleanupExpiredKeys now w) = timer_view w"
  by (simp add: cleanupExpiredKeys_def)

lemma tv_add_catch [simp]: "timer_view (add_catch ws e w) = timer_view w"
  by (simp add: timer_view_def)

lemma tv_add_start [simp]: "timer_view (snd (add_start ws req now w)) = timer_view w"
  by (simp add: add_start_unfold Let_def split: option.splits)

lemma tv_idleTimeout [simp]: "timer_view (idleTimeout ws w) = timer_view w"
  by (simp add: idleTimeout_def)

lemma tv_clear_maps [simp]: "timer_view (clear_maps w) = timer_view w"
  by (simp add: clear_maps_def)

lemma tv_shutdown_loop [simp]: "timer_view (shutdown_loop i ss w) = timer_view w"
  by (induction ss arbitrary: w) (simp_all add: Let_def)

lemma tv_fold_terminate_open [simp]:
  "timer_view (fold (\<lambda>s w'. if readyState (heap w' s) = OPEN then ws_terminate s w' else w') ss w)
     = timer_view w"
  by (induction ss arbitrary: w) simp_all

lemma tv_forceTimeout [simp]: "timer_view (forceTimeout i w) = timer_view w"
  by (simp add: forceTimeout_def)

lemma tv_clearTimeout:
  "timer_view (clearTimeout h w) = (cancel h (timers w), nextTimer w, (\<lambda>s. timeoutTimer (heap w s)))"
  by (simp add: timer_view_def clearTimeout_def cancel_def)

lemma wf_clearTimeout: "timers_wf w \<Longrightarrow> timers_wf (clearTimeout h w)"
  using tv_clearTimeout [of h w] table_cancel
  by (simp add: timers_wf_def timer_view_def)

lemma wf_clear_timeoutTimer: "timers_wf w \<Longrightarrow> timers_wf (clear_timeoutTimer ws w)"
  by (simp add: clear_timeoutTimer_def wf_clearTimeout split: option.splits)

lemma wf_setTimeout_force:
  "timers_wf w \<Longrightarrow> timers_wf (snd (setTimeout (ForceTimeout i) d w))"
  using table_force by (simp add: timers_wf_def setTimeout_def)

lemma wf_setupSocketTimeout:
  assumes "timers_wf w"
  shows "timers_wf (setupSocketTimeout ws now w)"
proof (cases "timeout (config w)")
  case None
  then show ?thesis using assms by (simp add: setupSocketTimeout_def)
next
  case (Some T)
  show ?thesis
  proof (cases "T = 0")
    case True
    then show ?thesis using assms Some by (simp add: setupSocketTimeout_def)
  next
    case False
    let ?tt = "\<lambda>s. timeoutTimer (heap w s)"
    let ?ts = "case ?tt ws of None \<Rightarrow> timers w | Some h \<Rightarrow> cancel h (timers w)"
    have "timer_table_wf (?ts @ [(nextTimer w, now + T, IdleTimeout ws)]) (Suc (nextTimer w))
            (?tt(ws := Some (nextTimer w)))"
      using assms by (intro table_arm) (simp_all add: timers_wf_def)
    moreover have "timers (setupSocketTimeout ws now w) = ?ts @ [(nextTimer w, now + T, IdleTimeout ws)]"
      using Some False
      by (simp add: setupSocketTimeout_def setTimeout_def clear_timeoutTimer_def clearTimeout_def
          cancel_def split: option.splits)
    moreover have "nextTimer (setupSocketTimeout ws now w) = Suc (nextTimer w)"
      using Some False
      by (simp add: setupSocketTimeout_def setTimeout_def clear_timeoutTimer_def clearTimeout_def
          split: option.splits)
    moreover have "(\<lambda>s. timeoutTimer (heap (setupSocketTimeout ws now w) s)) = ?tt(ws := Some (nextTimer w))"
      using Some False
      by (simp add: setupSocketTimeout_def setTimeout_def clear_timeoutTimer_def clearTimeout_def
          fun_eq_iff split: option.splits)
    ultimately show ?thesis by (simp add: timers_wf_def)
  qed
qed

lemma wf_resetSocketTimeout: "timers_wf w \<Longrightarrow> timers_wf (resetSocketTimeout ws now w)"
  unfolding resetSocketTimeout_def
  by (rule wf_setupSocketTimeout) (simp add: timers_wf_view [OF tv_heap_upd(2)])

lemma removalOnClose_view_none:
  "timeoutTimer (heap w ws) = None \<Longrightarrow> timer_view (removalOnClose ws c r w) = timer_view w"
  by (simp add: removalOnClose_def Let_def)

lemma removalOnClose_timers:
  "timeoutTimer (heap w ws) = Some h \<Longrightarrow> timers (removalOnClose ws c r w) = cancel h (timers w)"
  by (simp add: removalOnClose_def Let_def emit_def clearTimeout_def cancel_def)

lemma removalOnClose_nextTimer:
  "timeoutTimer (heap w ws) = Some h \<Longrightarrow> nextTimer (removalOnClose ws c r w) = nextTimer w"
  by (simp add: removalOnClose_def Let_def emit_def clearTimeout_def)

lemma removalOnClose_handles:
  "timeoutTimer (heap w ws) = Some h \<Longrightarrow>
   (\<lambda>s. timeoutTimer (heap (removalOnClose ws c r w) s)) = (\<lambda>s. timeoutTimer (heap w s))(ws := None)"
  by (simp add: removalOnClose_def Let_def emit_def clearTimeout_def fun_eq_iff)

lemma wf_removalOnClose:
  assumes "timers_wf w"
  shows "timers_wf (removalOnClose ws c r w)"
proof (cases "timeoutTimer (heap w ws)")
  case None
  show ?thesis
    using assms timers_wf_view [OF removalOnClose_view_none [OF None]] by blast
next
  case (Some h)
  have "timer_table_wf (cancel h (timers w)) (nextTimer w) ((\<lambda>s. timeoutTimer (heap w s))(ws := None))"
    using assms Some by (intro table_unset) (simp_all add: timers_wf_def)
  then show ?thesis
    unfolding timers_wf_def
    by (simp only: removalOnClose_timers [OF Some] removalOnClose_nextTimer [OF Some]
        removalOnClose_handles [OF Some])
qed

lemma timers_wf_alt: "timers_wf w = (case timer_view w of (ts, n, tt) \<Rightarrow> timer_table_wf ts n tt)"
  by (simp add: timers_wf_def timer_view_def)

lemma wf_run_listener: "timers_wf w \<Longrightarrow> timers_wf (snd (run_listener ws ev now l w))"
  by (cases l; cases ev)
     (simp_all add: wf_removalOnClose wf_resetSocketTimeout timers_wf_alt [of "closeHandler i w" for i w]
        timers_wf_alt [of "snd (emit_error e s w)" for e s w] timers_wf_alt [of w])

lemma wf_fold_run_listener:
  "timers_wf w \<Longrightarrow> timers_wf (run_listeners ws ev now ls w)"
proof (induction ls arbitrary: w)
  case Nil
  then show ?case by simp
next
  case (Cons l ls)
  obtain r w1 where rl: "run_listener ws ev now l w = (r, w1)" by (cases "run_listener ws ev now l w")
  have w1: "timers_wf w1" using wf_run_listener [OF Cons.prems, of ws ev now l] rl by simp
  show ?case
  proof (cases r)
    case None
    then show ?thesis using Cons.IH [OF w1] rl by simp
  next
    case (Some e)
    then show ?thesis using w1 rl by (simp add: timers_wf_alt)
  qed
qed

lemma wf_dispatch: "timers_wf w \<Longrightarrow> timers_wf (dispatch ws ev now w)"
  unfolding dispatch_def Let_def
  by (rule wf_fold_run_listener) (simp add: timers_wf_alt)

lemma wf_fire: "timers_wf w \<Longrightarrow> timers_wf (fire h w)"
proof -
  assume a: "timers_wf w"
  have "timers_wf (idleTimeout ws (clearTimeout h w))" for ws
    using wf_clearTimeout [OF a, of h] by (simp add: timers_wf_alt)
  moreover have "timers_wf (forceTimeout i (clearTimeout h w))" for i
    using wf_clearTimeout [OF a, of h] by (simp add: timers_wf_alt)
  ultimately show ?thesis
    using a by (simp add: fire_def split: option.splits prod.splits task.splits)
qed

lemma wf_resetTimeout: "timers_wf w \<Longrightarrow> timers_wf (snd (resetTimeout r now w))"
  by (simp add: resetTimeout_def wf_resetSocketTimeout)

lemma wf_add_resume:
  assumes "timers_wf w"
  shows "timers_wf (add_resume a now w)"
proof (cases "adm_auth a")
  case (Throws e)
  then show ?thesis using assms by (simp add: add_resume_def timers_wf_alt)
next
  case (Returns ok)
  show ?thesis
  proof (cases ok)
    case False
    then show ?thesis using assms Returns by (simp add: add_resume_def timers_wf_alt)
  next
    case True
    let ?ws = "adm_ws a"
    let ?w1 = "w\<lparr>heap := (heap w)(?ws := (heap w ?ws)\<lparr>params := Some (map_of (rev (adm_params a)))\<rparr>),
                 sockets := map_set_key ?ws (sockets w)\<rparr>"
    let ?w2 = "if timeout_enabled ?w1 then setupSocketTimeout ?ws now ?w1 else ?w1"
    have "timer_view ?w1 = timer_view w"
      by (simp add: timer_view_def fun_eq_iff)
    from timers_wf_view [OF this] have "timers_wf ?w1" using assms by blast
    then have w2: "timers_wf ?w2" by (simp add: wf_setupSocketTimeout)
    have "timer_view (add_resume a now w) = timer_view ?w2"
      using Returns True by (simp add: add_resume_def Let_def timeout_enabled_def)
    from timers_wf_view [OF this] show ?thesis using w2 by blast
  qed
qed

lemma wf_gracefulShutdown:
  assumes "timers_wf w"
  shows "timers_wf (gracefulShutdown t now w)"
proof -
  let ?i = "length (shutdowns w)"
  let ?w0 = "w\<lparr>shutdowns := shutdowns w @ [\<lparr>snapshot = sockets w, closedCount = 0, resolved = False\<rparr>]\<rparr>"
  have w0: "timers_wf ?w0" using assms by (simp add: timers_wf_alt)
  show ?thesis
  proof (cases "sockets w = []")
    case True
    then show ?thesis using w0 by (simp add: gracefulShutdown_def Let_def timers_wf_alt)
  next
    case False
    let ?T = "case t of None \<Rightarrow> 5000 | Some t \<Rightarrow> t"
    let ?w1 = "snd (setTimeout (ForceTimeout ?i) (now + ?T) ?w0)"
    let ?w2 = "shutdown_loop ?i (sockets w) ?w1"
    have "timers_wf ?w1" using w0 by (rule wf_setTimeout_force)
    then have w2: "timers_wf ?w2" by (simp add: timers_wf_alt)
    then have w3: "timers_wf (clearTimeout h ?w2)" for h by (rule wf_clearTimeout)
    have "gracefulShutdown t now w = ?w2 \<or> (\<exists>h. gracefulShutdown t now w = clearTimeout h ?w2)"
      using False by (auto simp add: gracefulShutdown_def Let_def split: prod.splits)
    then show ?thesis using w2 w3 by auto
  qed
qed

lemma wf_fold_terminate:
  "timers_wf w \<Longrightarrow> timers_wf (fold (\<lambda>s w'. ws_terminate s (clear_timeoutTimer s w')) ss w)"
proof (induction ss arbitrary: w)
  case Nil
  then show ?case by simp
next
  case (Cons s ss)
  have "timers_wf (ws_terminate s (clear_timeoutTimer s w))"
    using wf_clear_timeoutTimer [OF Cons.prems, of s] by (simp add: timers_wf_alt)
  then show ?case using Cons.IH by simp
qed

lemma wf_terminate:
  "timers_wf w \<Longrightarrow> timers_wf (case terminate ref w of Inl e \<Rightarrow> w | Inr w1 \<Rightarrow> w1)"
proof -
  assume a: "timers_wf w"
  have all: "timers_wf (clear_maps (fold (\<lambda>s w'. ws_terminate s (clear_timeoutTimer s w')) (sockets w) w))"
    using wf_fold_terminate [OF a, of "sockets w"] by (simp add: timers_wf_alt)
  have one: "timers_wf (ws_terminate r (clear_timeoutTimer r w))" for r
    using wf_clear_timeoutTimer [OF a, of r] by (simp add: timers_wf_alt)
  show ?thesis
    using a all one by (cases ref) (simp_all add: terminate_def)
qed

lemma wf_fold_destroy:
  "timers_wf w \<Longrightarrow>
   timers_wf (fold (\<lambda>s w'. let w2 = clear_timeoutTimer s w'
                            in if readyState (heap w2 s) = OPEN then ws_terminate s w2 else w2) ss w)"
proof (induction ss arbitrary: w)
  case Nil
  then show ?case by simp
next
  case (Cons s ss)
  have "timers_wf (ws_terminate s (clear_timeoutTimer s w))"
    using wf_clear_timeoutTimer [OF Cons.prems, of s] by (simp add: timers_wf_alt)
  then have "timers_wf (let w2 = clear_timeoutTimer s w
                        in if readyState (heap w2 s) = OPEN then ws_terminate s w2 else w2)"
    using wf_clear_timeoutTimer [OF Cons.prems, of s] by (simp add: Let_def)
  then show ?case using Cons.IH by simp
qed

lemma wf_destroy: "timers_wf w \<Longrightarrow> timers_wf (destroy w)"
proof -
  assume a: "timers_wf w"
  let ?w1 = "fold (\<lambda>s w'. let w2 = clear_timeoutTimer s w'
                            in if readyState (heap w2 s) = OPEN then ws_terminate s w2 else w2)
                    (sockets w) w"
  have "timer_view (destroy w) = timer_view ?w1"
    by (simp add: destroy_def Let_def split: option.splits)
  from timers_wf_view [OF this] show ?thesis using wf_fold_destroy [OF a] by blast
qed

lemma wf_exec:
  assumes wf: "timers_wf w"
  shows "timers_wf (exec a w)"
proof (cases a)
  case (AddStart ws req now)
  have "timer_view (exec a w) = timer_view w"
    using tv_add_start [of ws req now w]
    by (cases "add_start ws req now w"; cases "fst (add_start ws req now w)") (simp_all add: AddStart)
  from timers_wf_view [OF this] show ?thesis using wf by blast
next
  case (AddResume k now)
  have "timers_wf (w\<lparr>admissions := take k (admissions w) @ drop (Suc k) (admissions w)\<rparr>)"
    using wf by (simp add: timers_wf_alt)
  then show ?thesis using wf by (simp add: AddResume wf_add_resume)
next
  case (GeneratePendingConnectionKey kb ib now)
  then show ?thesis using wf by (simp add: timers_wf_alt)
next
  case (CleanupExpiredKeys now)
  then show ?thesis using wf by (simp add: timers_wf_alt)
next
  case (SocketEvent ws ev now)
  then show ?thesis using wf by (simp add: wf_dispatch)
next
  case (TimerFires h)
  then show ?thesis using wf by (simp add: wf_fire)
next
  case (TransportState ws st)
  then show ?thesis using wf by (simp add: timers_wf_alt)
next
  case (SendCompletes k e)
  then show ?thesis using wf by (simp add: timers_wf_alt)
next
  case (Send r d c tx)
  then show ?thesis using wf by (simp add: timers_wf_alt)
next
  case (Broadcast d f c tx)
  then show ?thesis using wf by (simp add: timers_wf_alt)
next
  case (GracefulShutdown t now)
  then show ?thesis using wf by (simp add: wf_gracefulShutdown)
next
  case (ResetTimeout r now)
  then show ?thesis using wf by (simp add: wf_resetTimeout)
next
  case (Terminate ref)
  then show ?thesis using wf_terminate [OF wf, of ref] by simp
next
  case DestroyController
  then show ?thesis using wf by (simp add: wf_destroy)
next
  case OnError
  then show ?thesis using wf by (simp add: timers_wf_alt)
qed

lemma wf_new_world: "timers_wf (new_world p c)"
  by (simp add: timers_wf_def timer_table_wf_def new_world_def new_socket_def)

lemma reachable_fold_exec: "reachable w \<Longrightarrow> reachable (fold exec as w)"
  by (induction as arbitrary: w) (simp_all add: reachable.step)

lemma reachable_timers_wf: "reachable w \<Longrightarrow> timers_wf w"
  by (induction rule: reachable.induct) (simp_all add: wf_new_world wf_exec)

lemma table_rearmed:
  assumes "timer_table_wf ts n tt"
    and "ts' = (case tt ws of None \<Rightarrow> ts | Some h \<Rightarrow> cancel h ts)"
  shows "filter (\<lambda>(h, d, tk). tk = IdleTimeout ws) (ts' @ [(n, d, IdleTimeout ws)])
           = [(n, d, IdleTimeout ws)]"
proof -
  have none: "tk \<noteq> IdleTimeout ws" if "(h, d', tk) \<in> set ts'" for h d' tk
  proof
    assume tk: "tk = IdleTimeout ws"
    show False
    proof (cases "tt ws")
      case None
      with that assms(2) have "(h, d', tk) \<in> set ts" by simp
      from table_owner [OF assms(1) this, of ws] tk None show False by simp
    next
      case (Some h0)
      with that assms(2) have m: "(h, d', tk) \<in> set ts" and ne: "h \<noteq> h0" by (simp_all add: in_cancel)
      from table_owner [OF assms(1) m, of ws] tk Some ne show False by simp
    qed
  qed
  then have "filter (\<lambda>(h, d, tk). tk = IdleTimeout ws) ts' = []"
    by (auto simp add: filter_empty_conv)
  then show ?thesis by simp
qed

lemma setupSocketTimeout_timers:
  assumes "timeout (config w) = Some T" and "T \<noteq> 0"
  shows "timers (setupSocketTimeout ws now w) =
           (case timeoutTimer (heap w ws) of None \<Rightarrow> timers w | Some h \<Rightarrow> cancel h (timers w))
             @ [(nextTimer w, now + T, IdleTimeout ws)]"
  using assms
  by (simp add: setupSocketTimeout_def setTimeout_def clear_timeoutTimer_def clearTimeout_def
      cancel_def split: option.splits)

lemma setupSocketTimeout_rearms:
  assumes "timers_wf w" and "timeout (config w) = Some T" and "T \<noteq> 0"
  shows "idle_timers ws (setupSocketTimeout ws now w) = [(nextTimer w, now + T, IdleTimeout ws)]"
  unfolding idle_timers_def setupSocketTimeout_timers [OF assms(2,3)]
  using assms(1) unfolding timers_wf_def
  by (rule table_rearmed) simp

lemma resetSocketTimeout_rearms:
  assumes "timers_wf w" and "timeout (config w) = Some T" and "T \<noteq> 0"
  shows "idle_timers ws (resetSocketTimeout ws now w) = [(nextTimer w, now + T, IdleTimeout ws)]"
proof -
  let ?w = "w\<lparr>heap := (heap w)(ws := (heap w ws)\<lparr>lastActivity := Some now\<rparr>)\<rparr>"
  have "timers_wf ?w" using assms(1) by (simp add: timers_wf_alt)
  from setupSocketTimeout_rearms [OF this, of T ws now] assms(2,3)
  show ?thesis by (simp add: resetSocketTimeout_def)
qed

text \<open>
  C7: in every state that the controller can reach, each socket has at most one pending
  idle-timeout timer. With a nonzero \<open>timeout\<close> configured, arming (\<open>setupSocketTimeout\<close>,
  as on admission), re-arming on an activity signal (\<open>resetSocketTimeout\<close>, the handler of
  message, ping and pong) and \<open>resetTimeout\<close> of a registered connection leave exactly
  the newly scheduled timer pending for the socket: the previous one has been cancelled.
\<close>

theorem one_idle_timer_per_socket:
  assumes "reachable w"
  shows "length (idle_timers ws w) \<le> 1 \<and>
         (timeout (config w) = Some T \<and> T \<noteq> 0 \<longrightarrow>
            idle_timers ws (setupSocketTimeout ws now w) = [(nextTimer w, now + T, IdleTimeout ws)] \<and>
            idle_timers ws (resetSocketTimeout ws now w) = [(nextTimer w, now + T, IdleTimeout ws)] \<and>
            (ws \<in> set (sockets w) \<longrightarrow>
               idle_timers ws (snd (resetTimeout ws now w)) = [(nextTimer w, now + T, IdleTimeout ws)]))"
proof -
  have wf: "timers_wf w" using assms by (rule reachable_timers_wf)
  then have "length (idle_timers ws w) \<le> 1"
    unfolding idle_timers_def timers_wf_def by (rule table_idle_unique)
  then show ?thesis
    using setupSocketTimeout_rearms [OF wf] resetSocketTimeout_rearms [OF wf]
    by (simp add: resetTimeout_def)
qed

theorem one_idle_timer_per_socket_witness:
  "reachable
     (fold exec [AddStart ''a'' \<lparr>remoteAddress = None, userAgent = None, searchParams = Some []\<rparr> 0,
                 AddResume 0 0, SocketEvent ''a'' MessageEvent 7]
        (new_world ''/chat'' (empty_config\<lparr>useConnectionKeys := Some False, timeout := Some 1000\<rparr>))) \<and>
   timers
     (fold exec [AddStart ''a'' \<lparr>remoteAddress = None, userAgent = None, searchParams = Some []\<rparr> 0,
                 AddResume 0 0]
        (new_world ''/chat'' (empty_config\<lparr>useConnectionKeys := Some False, timeout := Some 1000\<rparr>)))
     = [(0, 1000, IdleTimeout ''a'')] \<and>
   timers
     (fold exec [AddStart ''a'' \<lparr>remoteAddress = None, userAgent = None, searchParams = Some []\<rparr> 0,
                 AddResume 0 0, SocketEvent ''a'' MessageEvent 7]
        (new_world ''/chat'' (empty_config\<lparr>useConnectionKeys := Some False, timeout := Some 1000\<rparr>)))
     = [(1, 1007, IdleTimeout ''a'')] \<and>
   length (idle_timers ''a''
     (fold exec [AddStart ''a'' \<lparr>remoteAddress = None, userAgent = None, searchParams = Some []\<rparr> 0,
                 AddResume 0 0, SocketEvent ''a'' MessageEvent 7]
        (new_world ''/chat'' (empty_config\<lparr>useConnectionKeys := Some False, timeout := Some 1000\<rparr>)))) \<le> 1 \<and>
   idle_timers ''a'' (resetSocketTimeout ''a'' 9
     (fold exec [AddStart ''a'' \<lparr>remoteAddress = None, userAgent = None, searchParams = Some []\<rparr> 0,
                 AddResume 0 0, SocketEvent ''a'' MessageEvent 7]
        (new_world ''/chat'' (empty_config\<lparr>useConnectionKeys := Some False, timeout := Some 1000\<rparr>))))
     = [(2, 1009, IdleTimeout ''a'')] \<and>
   idle_timers ''a'' (snd (resetTimeout ''a'' 12
     (fold exec [AddStart ''a'' \<lparr>remoteAddress = None, userAgent = None, searchParams = Some []\<rparr> 0,
                 AddResume 0 0, SocketEvent ''a'' MessageEvent 7]
        (new_world ''/chat'' (empty_config\<lparr>useConnectionKeys := Some False, timeout := Some 1000\<rparr>)))))
     = [(2, 1012, IdleTimeout ''a'')]"
proof -
  define W0 where "W0 = fold exec [AddStart ''a'' \<lparr>remoteAddress = None, userAgent = None, searchParams = Some []\<rparr> 0,
                 AddResume 0 0]
        (new_world ''/chat'' (empty_config\<lparr>useConnectionKeys := Some False, timeout := Some 1000\<rparr>))"
  define W where "W = fold exec [AddStart ''a'' \<lparr>remoteAddress = None, userAgent = None, searchParams = Some []\<rparr> 0,
                 AddResume 0 0, SocketEvent ''a'' MessageEvent 7]
        (new_world ''/chat'' (empty_config\<lparr>useConnectionKeys := Some False, timeout := Some 1000\<rparr>))"
  have r: "reachable W" unfolding W_def by (rule reachable_fold_exec [OF reachable.init])
  have tz: "timers W0 = [(0, 1000, IdleTimeout ''a'')]"
    unfolding W0_def
    by (simp add: new_world_def new_WebSocketEndpointController_def empty_config_def new_socket_def
      checkRateLimit_def key_check_def at_capacity_def add_start_unfold Let_def
      add_resume_def authHandler_of_def timeout_enabled_def map_set_key_def add_listener_def emit_def
      setupSocketTimeout_def clear_timeoutTimer_def setTimeout_def)
  have base: "timers W = [(1, 1007, IdleTimeout ''a'')]" "nextTimer W = 2"
    "timeout (config W) = Some 1000" "sockets W = [''a'']"
    unfolding W_def
    by (simp_all add: new_world_def new_WebSocketEndpointController_def empty_config_def new_socket_def
      checkRateLimit_def key_check_def at_capacity_def add_start_unfold Let_def
      add_resume_def authHandler_of_def timeout_enabled_def map_set_key_def add_listener_def emit_def
      setupSocketTimeout_def clear_timeoutTimer_def setTimeout_def clearTimeout_def dispatch_def
      resetSocketTimeout_def)
  from one_idle_timer_per_socket [OF r, of "''a''" 1000]
  have "length (idle_timers ''a'' W) \<le> 1"
    and "idle_timers ''a'' (resetSocketTimeout ''a'' now W) = [(2, now + 1000, IdleTimeout ''a'')]"
    and "idle_timers ''a'' (snd (resetTimeout ''a'' now W)) = [(2, now + 1000, IdleTimeout ''a'')]" for now
    by (simp_all add: base)
  from this(1) this(2) [of 9] this(3) [of 12] r tz base(1)
  show ?thesis unfolding W_def W0_def by simp
qed

section \<open>Graceful shutdown: results\<close>

text \<open>
  C4, on the code: a connection is admitted and open. \<open>gracefulShutdown(3000)\<close> at time 10
  calls \<open>close(1001, 'Server shutting down')\<close> on it, which leaves it \<open>CLOSING\<close>, and
  schedules \<open>forceTimeout\<close> for time 3010. The connection never acknowledges the close, so
  no \<open>close\<close> event arrives. When the timer fires, \<open>forceTimeout\<close> tests
  \<open>readyState === OPEN\<close>, finds the connection \<open>CLOSING\<close>, does not call \<open>terminate\<close>
  on it, and resolves: the promise is resolved with the connection neither closed nor
  terminated, and still in the connection map.
\<close>

theorem gracefulShutdown_skips_closing:
  "let W = fold exec [AddStart ''a'' \<lparr>remoteAddress = None, userAgent = None, searchParams = Some []\<rparr> 0,
                      AddResume 0 0]
             (new_world ''/chat'' (empty_config\<lparr>useConnectionKeys := Some False\<rparr>));
       G = exec (GracefulShutdown (Some 3000) 10) W;
       V = exec (TimerFires 0) G
   in sockets W = [''a''] \<and> readyState (heap W ''a'') = OPEN \<and>
      trace G = trace W @ [WsClose ''a'' 1001 ''Server shutting down''] \<and>
      timers G = [(0, 3010, ForceTimeout 0)] \<and>
      readyState (heap G ''a'') = CLOSING \<and>
      trace V = trace G @ [Resolve 0] \<and>
      resolved (shutdowns V ! 0) \<and>
      sockets V = [''a''] \<and>
      readyState (heap V ''a'') = CLOSING \<and>
      WsTerminate ''a'' \<notin> set (trace V)"
  by (simp add: eval_defs)

text \<open>
  The count of \<open>closeHandler\<close>: a snapshotted connection that is not \<open>OPEN\<close> at the call
  is counted at once, and counted again when its \<open>close\<close> event arrives, since the listener
  registered with \<open>once\<close> stays. Here \<open>a\<close> is already closing at the call and \<open>b\<close> is
  open: the \<open>close\<close> event of \<open>a\<close> alone brings the count to two and resolves the
  promise, while \<open>b\<close> has not closed.
\<close>

lemma gracefulShutdown_resolves_early:
  "let W = fold exec [AddStart ''a'' \<lparr>remoteAddress = None, userAgent = None, searchParams = Some []\<rparr> 0,
                      AddResume 0 0,
                      AddStart ''b'' \<lparr>remoteAddress = None, userAgent = None, searchParams = Some []\<rparr> 1,
                      AddResume 0 1,
                      TransportState ''a'' CLOSING]
             (new_world ''/chat'' (empty_config\<lparr>useConnectionKeys := Some False\<rparr>));
       G = exec (GracefulShutdown (Some 3000) 10) W;
       V = exec (SocketEvent ''a'' (CloseEvent 1000 []) 20) G
   in snapshot (shutdowns G ! 0) = [''a'', ''b''] \<and>
      closedCount (shutdowns G ! 0) = 1 \<and> \<not> resolved (shutdowns G ! 0) \<and>
      trace G = trace W @ [WsClose ''b'' 1001 ''Server shutting down''] \<and>
      closedCount (shutdowns V ! 0) = 2 \<and> resolved (shutdowns V ! 0) \<and>
      sockets V = [''b''] \<and> readyState (heap V ''b'') = CLOSING \<and>
      ShutdownOnClose 0 \<in> set (listeners (heap V ''b''))"
  by (simp add: eval_defs)

end
